theory Spec2Isabelle
  imports Main
begin

section \<open>The application kernel of impress: data model\<close>

text \<open>
  The kernel is the class \<open>Application\<close>. Its collaborators (the eight places, the
  directory watcher, the file system, the auth provider factory, the console, the
  logger and the network listener) live in other modules; the kernel only calls them.
  A call to a collaborator is recorded as an \<open>event\<close>, and what the collaborator
  answers is read from an environment record, so every function below is a pure
  function of the environment and of the application state.

  The failures of collaborators that the model follows are those the kernel's code
  provides for: a \<open>load\<close> whose promise is rejected, a start or stop hook whose
  promise is rejected, and a failing \<open>fs.stat\<close>. Writing to the console,
  creating the watcher, constructing the auth provider and closing the listener and
  the logger are calls that complete.
\<close>

subsection \<open>Strings and numbers of the host language\<close>

text \<open>
  A string is a list of code units (here: the code units below 256).
  \<open>s.substring(a, b)\<close> clamps both indices to \<open>0 .. s.length\<close> and swaps them
  when they are out of order; \<open>s.indexOf(c)\<close> is \<open>-1\<close> when \<open>c\<close> does not occur.
\<close>

definition substring :: "string \<Rightarrow> int \<Rightarrow> int \<Rightarrow> string" where
  "substring s a b =
     (let n = int (length s);
          a' = max 0 (min a n);
          b' = max 0 (min b n);
          lo = min a' b';
          hi = max a' b'
      in take (nat (hi - lo)) (drop (nat lo) s))"

definition substringFrom :: "string \<Rightarrow> int \<Rightarrow> string" where
  "substringFrom s a = substring s a (int (length s))"

fun indexOf :: "string \<Rightarrow> char \<Rightarrow> int" where
  "indexOf [] c = -1"
| "indexOf (x # xs) c =
     (if x = c then 0 else (let i = indexOf xs c in if i < 0 then -1 else i + 1))"

text \<open>\<open>s.split(c)\<close> for a one-character separator: never the empty array.\<close>

fun split :: "char \<Rightarrow> string \<Rightarrow> string list" where
  "split c [] = [[]]"
| "split c (x # xs) =
     (if x = c then [] # split c xs
      else (case split c xs of [] \<Rightarrow> [[x]] | y # ys \<Rightarrow> (x # y) # ys))"

text \<open>
  A number is \<open>NaN\<close> or an integer. The version numbers of the registry are
  integers, and a double holds every integer of magnitude below \<open>2 ^ 53\<close>
  exactly; rounding above that range is not modelled.
\<close>

datatype jsnum = NaN | Num int

definition safeInteger :: "jsnum \<Rightarrow> bool" where
  "safeInteger v = (case v of NaN \<Rightarrow> True | Num i \<Rightarrow> \<bar>i\<bar> < 2 ^ 53)"

definition digitChar :: "nat \<Rightarrow> char" where
  "digitChar d = ''0123456789'' ! (d mod 10)"

fun digits :: "nat \<Rightarrow> string" where
  "digits n = (if n < 10 then [digitChar n] else digits (n div 10) @ [digitChar (n mod 10)])"

declare digits.simps [simp del]

text \<open>\<open>Number.prototype.toString()\<close>, also the conversion used by \<open>'.' + version\<close>.\<close>

definition toString :: "jsnum \<Rightarrow> string" where
  "toString v =
     (case v of
        NaN \<Rightarrow> ''NaN''
      | Num i \<Rightarrow> (if i < 0 then CHR ''-'' # digits (nat (- i)) else digits (nat i)))"

text \<open>
  \<open>parseInt(string, radix)\<close> as ECMAScript defines it: leading white space is
  skipped, one sign is read, with radix \<open>undefined\<close> (or 16) a prefix \<open>0x\<close>
  switches to base 16, the longest prefix of digits is converted, and the result is
  \<open>NaN\<close> when that prefix is empty. The radix argument is \<open>None\<close> for
  \<open>undefined\<close>.
\<close>

definition whitespace :: "char \<Rightarrow> bool" where
  "whitespace c =
     (c \<in> set [CHR 0x09, CHR 0x0A, CHR 0x0B, CHR 0x0C, CHR 0x0D, CHR '' '', CHR 0xA0])"

definition digitValue :: "char \<Rightarrow> nat option" where
  "digitValue c =
     (let n = (of_char c :: nat) in
      if 48 \<le> n \<and> n \<le> 57 then Some (n - 48)
      else if 97 \<le> n \<and> n \<le> 122 then Some (n - 87)
      else if 65 \<le> n \<and> n \<le> 90 then Some (n - 55)
      else None)"

definition radixDigit :: "nat \<Rightarrow> char \<Rightarrow> bool" where
  "radixDigit r c = (case digitValue c of None \<Rightarrow> False | Some d \<Rightarrow> d < r)"

definition mathInt :: "nat \<Rightarrow> string \<Rightarrow> nat" where
  "mathInt r z = foldl (\<lambda>acc c. acc * r + (case digitValue c of None \<Rightarrow> 0 | Some d \<Rightarrow> d)) 0 z"

definition parseInt :: "string \<Rightarrow> nat option \<Rightarrow> jsnum" where
  "parseInt str radix =
     (let S = dropWhile whitespace str;
          neg = (S \<noteq> [] \<and> hd S = CHR ''-'');
          S1 = (if S \<noteq> [] \<and> (hd S = CHR ''+'' \<or> hd S = CHR ''-'') then tl S else S);
          R0 = (case radix of None \<Rightarrow> 0 | Some r \<Rightarrow> r)
      in if R0 \<noteq> 0 \<and> (R0 < 2 \<or> 36 < R0) then NaN
         else
           let stripPrefix = (R0 = 0 \<or> R0 = 16);
               hex = (stripPrefix \<and> (take 2 S1 = ''0x'' \<or> take 2 S1 = ''0X''));
               S2 = (if hex then drop 2 S1 else S1);
               R = (if hex then 16 else if R0 = 0 then 10 else R0);
               Z = takeWhile (radixDigit R) S2
           in if Z = [] then NaN
              else Num ((if neg then - 1 else 1) * int (mathInt R Z)))"

subsection \<open>Errors, promises, events\<close>

text \<open>
  \<open>Error\<close> is the class of the source (a message and a machine-readable code);
  \<open>TypeError\<close> is what the runtime raises on a member access on \<open>undefined\<close>.
  A synchronous call returns or throws; a promise is fulfilled or rejected.
\<close>

datatype js_error = TypeError string | Error string string

datatype 'a completion = Returned 'a | Thrown js_error

datatype outcome = Fulfilled | Rejected js_error

datatype place = Schemas | Static | Resources | Api | Lib | Db | Domain | Scheduler

text \<open>
  A hook is an asynchronous function of a hosted module whose promise is fulfilled or
  rejected with an error: the model keeps its name and how that promise settles. The
  start queue holds hooks. What a module exports under \<open>stop\<close> is read by the kernel
  itself and may be any callable: a hook, an asynchronous function whose promise is
  rejected with \<open>null\<close> or \<open>undefined\<close>, a function that throws before it
  returns a promise, or a function that returns no promise.
\<close>

datatype hook = Hook string outcome

fun hookResult :: "hook \<Rightarrow> outcome" where
  "hookResult (Hook name r) = r"

datatype callable =
    Async hook
  | RejectsNothing string
  | Throws string js_error
  | NoPromise string

datatype provider = Provider nat

text \<open>
  A procedure of the registry, or the member of \<open>Object.prototype\<close> that a lookup
  on a plain object finds under a name the object does not have itself.
\<close>

datatype procedure = Procedure nat | Builtin string

datatype signature = Signature nat

datatype event =
    Load place "string option"
  | Loaded place outcome
  | Change place string
  | Delete place string
  | Called hook
  | Settled hook outcome
  | Invoked string
  | ConsoleDebug string
  | ConsoleError js_error
  | AuthCreate string provider
  | ServerClose
  | LoggerClose

subsection \<open>The application object\<close>

record interface =
  defaultVersion :: jsnum
  versions :: "string \<rightharpoonup> (string \<rightharpoonup> procedure)"

record module =
  stop :: "callable option"

record auth_section =
  provider :: "provider option"

record listener =
  host :: string
  port :: nat
  protocol :: string

record config =
  watchTimeout :: nat
  sessions :: string

record sandbox =
  workerId :: string
  serverDescriptor :: "listener option"
  apiAuth :: "auth_section option"

text \<open>
  The fields of \<open>Application\<close> that the kernel reads or writes. \<open>collection\<close>
  and \<open>signatures\<close> are those of \<open>this.api\<close>, \<open>tree\<close> gives \<open>this.lib.tree\<close>,
  \<open>this.db.tree\<close> and \<open>this.domain.tree\<close> with their keys in enumeration order.
  The registry objects are plain objects: the maps give their own properties, and a
  lookup also finds what they inherit from \<open>Object.prototype\<close> (see
  \<open>inherited\<close> below). The constructor
  leaves \<open>sandbox\<close>, \<open>watcher\<close> and \<open>auth\<close> unset; \<open>config\<close>, \<open>console\<close>
  and \<open>logger\<close> are wired by the process bootstrap before \<open>init\<close> runs.
\<close>

record application =
  kind :: string
  initialization :: bool
  finalization :: bool
  path :: string
  starts :: "hook list"
  config :: config
  auth :: "provider option"
  watcher :: "nat option"
  sandbox :: "sandbox option"
  server :: "listener option"
  collection :: "string \<rightharpoonup> interface"
  signatures :: "string \<rightharpoonup> signature"
  tree :: "place \<Rightarrow> (string \<times> module) list"

text \<open>
  What the collaborators answer: the path separator and the worker thread id of the
  host, the result of \<open>fs.stat\<close>, how the promise of each \<open>place.load()\<close>
  settles, the start hooks a load pushes on \<open>application.starts\<close>, the
  \<open>auth\<close> section that the api load leaves in \<open>sandbox.api\<close>, and the provider
  factory of \<open>auth.js\<close>.
\<close>

datatype stat_result = StatError | StatDirectory | StatFile

record env =
  sep :: char
  threadId :: nat
  stat :: "string \<Rightarrow> stat_result"
  loadResult :: "place \<Rightarrow> outcome"
  loadStarts :: "place \<Rightarrow> hook list"
  loadAuth :: "auth_section option"
  authFactory :: "string \<Rightarrow> provider"

section \<open>Interface registry\<close>

text \<open>
  The names that every plain object inherits from \<open>Object.prototype\<close>. Each of them
  is bound to a function or, for \<open>__proto__\<close>, to the prototype object itself: a
  truthy value without a property \<open>default\<close> and without properties named by a
  number. An own property of the same name comes first.
\<close>

definition inherited :: "string \<Rightarrow> bool" where
  "inherited key =
     (key \<in> set [''constructor'', ''__proto__'', ''hasOwnProperty'', ''isPrototypeOf'',
                 ''propertyIsEnumerable'', ''toLocaleString'', ''toString'', ''valueOf'',
                 ''__defineGetter__'', ''__defineSetter__'', ''__lookupGetter__'',
                 ''__lookupSetter__''])"

text \<open>\<open>methods[methodName]\<close> on the object that holds the methods of a version.\<close>

definition property :: "(string \<rightharpoonup> procedure) \<Rightarrow> string \<Rightarrow> procedure option" where
  "property obj key =
     (case obj key of
        Some v \<Rightarrow> Some v
      | None \<Rightarrow> (if inherited key then Some (Builtin key) else None))"

text \<open>
  \<open>getMethod(iname, ver, methodName)\<close>; \<open>null\<close> is \<open>None\<close>. When
  \<open>collection[iname]\<close> is an inherited member, \<open>iface.default\<close> is
  \<open>undefined\<close> and \<open>version.toString()\<close> raises a \<open>TypeError\<close> for the
  version \<open>'*'\<close>; for any other version the member has no property of that name.
  The key \<open>version.toString()\<close> is \<open>NaN\<close> or a decimal numeral, never an
  inherited name.
\<close>

definition getMethod ::
  "application \<Rightarrow> string \<Rightarrow> string \<Rightarrow> string \<Rightarrow> procedure option completion" where
  "getMethod this iname ver methodName =
     (case collection this iname of
        None \<Rightarrow>
          (if inherited iname
           then (if ver = ''*'' then Thrown (TypeError ''toString'') else Returned None)
           else Returned None)
      | Some iface \<Rightarrow>
          (let version = (if ver = ''*'' then defaultVersion iface else parseInt ver (Some 10)) in
           case versions iface (toString version) of
             None \<Rightarrow> Returned None
           | Some methods \<Rightarrow>
               (case property methods methodName of
                  None \<Rightarrow> Returned None
                | Some proc \<Rightarrow> Returned (Some proc))))"

text \<open>
  \<open>introspect(interfaces)\<close>. The result object maps a key to \<open>Some s\<close> for a
  stored signature and to \<open>None\<close> when the key is present with value
  \<open>undefined\<close>. The key \<open>iname + '.' + version\<close> of \<open>signatures\<close> has a
  dot, so it is never an inherited name. When \<open>collection[iname]\<close> is an inherited
  member, \<open>iface.default\<close> is \<open>undefined\<close> and the version in the key reads
  \<open>undefined\<close> for \<open>'*'\<close>; the assignment \<open>intro[iname] = ...\<close> makes a key
  except under the name \<open>__proto__\<close>, where it creates no property. (No own
  property of the registry is named \<open>__proto__\<close>: an assignment cannot make one.)
\<close>

fun introspectLoop ::
  "application \<Rightarrow> string list \<Rightarrow> (string \<rightharpoonup> signature option) \<Rightarrow> (string \<rightharpoonup> signature option)" where
  "introspectLoop this [] intro = intro"
| "introspectLoop this (interfaceName # rest) intro =
     (let parts = split CHR ''.'' interfaceName;
          iname = hd parts;
          ver = (case tl parts of [] \<Rightarrow> ''*'' | v # _ \<Rightarrow> v)
      in case collection this iname of
           None \<Rightarrow>
             (if inherited iname
              then (let version = (if ver = ''*'' then ''undefined'' else toString (parseInt ver None))
                    in if iname = ''__proto__'' then introspectLoop this rest intro
                       else introspectLoop this rest
                              (intro(iname \<mapsto> signatures this (iname @ ''.'' @ version))))
              else introspectLoop this rest intro)
         | Some iface \<Rightarrow>
             (let version = (if ver = ''*'' then defaultVersion iface else parseInt ver None)
              in introspectLoop this rest
                   (intro(iname \<mapsto> signatures this (iname @ ''.'' @ toString version)))))"

definition introspect ::
  "application \<Rightarrow> string list \<Rightarrow> (string \<rightharpoonup> signature option) completion" where
  "introspect this interfaces = Returned (introspectLoop this interfaces Map.empty)"

text \<open>
  The version that a lookup resolves: the default version of the interface for
  \<open>'*'\<close>, otherwise \<open>parseInt\<close> of the version string (with radix 10 in
  \<open>getMethod\<close>, without a radix in \<open>introspect\<close>).
\<close>

definition resolved :: "interface \<Rightarrow> string \<Rightarrow> nat option \<Rightarrow> jsnum" where
  "resolved iface ver radix = (if ver = ''*'' then defaultVersion iface else parseInt ver radix)"

text \<open>
  \<open>path.join(a, b)\<close> for a normalised absolute path \<open>a\<close> such as
  \<open>process.cwd()\<close> returns and a plain name \<open>b\<close>: the separator is put between
  them unless \<open>a\<close> already ends with it (a root directory).
\<close>

definition pathJoin :: "char \<Rightarrow> string \<Rightarrow> string \<Rightarrow> string" where
  "pathJoin s a b = (if a = [] then b else if last a = s then a @ b else a @ [s] @ b)"

text \<open>The constructor; \<open>cwd\<close> is \<open>process.cwd()\<close>.\<close>

definition newApplication :: "env \<Rightarrow> string \<Rightarrow> config \<Rightarrow> application" where
  "newApplication e cwd cfg =
     \<lparr>kind = '''', initialization = True, finalization = False,
      path = pathJoin (sep e) cwd ''application'', starts = [], config = cfg,
      auth = None, watcher = None, sandbox = None, server = None,
      collection = Map.empty, signatures = Map.empty, tree = (\<lambda>p. [])\<rparr>"

section \<open>Hot-reload dispatcher\<close>

text \<open>
  \<open>this[place]\<close>: the eight fields of \<open>Application\<close> that hold a place. Under
  any other name there is \<open>undefined\<close> or an object without \<open>load\<close>,
  \<open>change\<close> and \<open>delete\<close>, and the member call raises a \<open>TypeError\<close>
  (recorded with the name of the member). Seven places are caches of files with
  \<open>load\<close>, \<open>change\<close> and \<open>delete\<close>. The scheduler place is not: it has the
  \<open>load\<close> that \<open>init\<close> calls, and its contract (\<open>add\<close>, \<open>remove\<close>,
  \<open>stop\<close>) has no \<open>change\<close> and no \<open>delete\<close>.
\<close>

fun placeName :: "place \<Rightarrow> string" where
  "placeName Schemas = ''schemas''"
| "placeName Static = ''static''"
| "placeName Resources = ''resources''"
| "placeName Api = ''api''"
| "placeName Lib = ''lib''"
| "placeName Db = ''db''"
| "placeName Domain = ''domain''"
| "placeName Scheduler = ''scheduler''"

definition places :: "place list" where
  "places = [Schemas, Static, Resources, Api, Lib, Db, Domain, Scheduler]"

definition placeField :: "string \<Rightarrow> place option" where
  "placeField name = find (\<lambda>p. placeName p = name) places"

definition hasMember :: "place \<Rightarrow> string \<Rightarrow> bool" where
  "hasMember p member =
     (if p = Scheduler then member = ''load''
      else member \<in> set [''load'', ''change'', ''delete''])"

definition relPathOf :: "application \<Rightarrow> string \<Rightarrow> string" where
  "relPathOf this filePath = substringFrom filePath (int (length (path this)) + 1)"

definition placeOf :: "env \<Rightarrow> application \<Rightarrow> string \<Rightarrow> string" where
  "placeOf e this filePath =
     (let relPath = relPathOf this filePath;
          sepIndex = indexOf relPath (sep e)
      in substring relPath 0 sepIndex)"

text \<open>
  The listener of the watcher's \<open>change\<close> event, with the callback of
  \<open>fs.stat\<close> run to its end: the calls it makes, and whether it returns or throws.
\<close>

definition onChange :: "env \<Rightarrow> application \<Rightarrow> string \<Rightarrow> event list \<times> unit completion" where
  "onChange e this filePath =
     (let relPath = relPathOf this filePath;
          place = placeOf e this filePath
      in case stat e filePath of
           StatError \<Rightarrow> ([], Returned ())
         | StatDirectory \<Rightarrow>
             (case placeField place of
                None \<Rightarrow> ([], Thrown (TypeError ''load''))
              | Some p \<Rightarrow>
                  (if hasMember p ''load'' then ([Load p (Some filePath)], Returned ())
                   else ([], Thrown (TypeError ''load''))))
         | StatFile \<Rightarrow>
             (let logged = (if threadId e = 1 then [ConsoleDebug (''Reload: /'' @ relPath)] else [])
              in case placeField place of
                   None \<Rightarrow> (logged, Thrown (TypeError ''change''))
                 | Some p \<Rightarrow>
                     (if hasMember p ''change'' then (logged @ [Change p filePath], Returned ())
                      else (logged, Thrown (TypeError ''change'')))))"

text \<open>
  The listener of the \<open>delete\<close> event is an \<open>async\<close> function: a throw inside
  it rejects the promise it returns, which nobody handles.
\<close>

definition onDelete :: "env \<Rightarrow> application \<Rightarrow> string \<Rightarrow> event list \<times> outcome" where
  "onDelete e this filePath =
     (let relPath = relPathOf this filePath;
          place = placeOf e this filePath
      in case placeField place of
           None \<Rightarrow> ([], Rejected (TypeError ''delete''))
         | Some p \<Rightarrow>
             (if hasMember p ''delete''
              then (Delete p filePath #
                      (if threadId e = 1 then [ConsoleDebug (''Deleted: /'' @ relPath)] else []),
                    Fulfilled)
              else ([], Rejected (TypeError ''delete''))))"

definition startWatch :: "application \<Rightarrow> application" where
  "startWatch this = this\<lparr>watcher := Some (watchTimeout (config this))\<rparr>"

section \<open>Sandbox\<close>

definition createSandbox :: "env \<Rightarrow> application \<Rightarrow> application" where
  "createSandbox e this =
     this\<lparr>sandbox := Some \<lparr>workerId = CHR ''W'' # digits (threadId e),
                             serverDescriptor = server this,
                             apiAuth = None\<rparr>\<rparr>"

section \<open>Lifecycle\<close>

text \<open>
  \<open>execute(method)\<close> for a hook: it calls the hook at once; when the promise of the
  hook settles, the \<open>.catch\<close> handler logs a rejection, and the promise that
  \<open>execute\<close> returns is fulfilled either way.
\<close>

definition executeSettle :: "hook \<Rightarrow> event list" where
  "executeSettle method =
     (case hookResult method of
        Fulfilled \<Rightarrow> [Settled method Fulfilled]
      | Rejected err \<Rightarrow> [Settled method (Rejected err), ConsoleError err])"

definition execute :: "hook \<Rightarrow> event list" where
  "execute method = Called method # executeSettle method"

text \<open>
  \<open>await this.execute(method)\<close> for any callable: the calls, and how the awaited
  promise settles. A promise rejected with \<open>null\<close> or \<open>undefined\<close> makes the
  \<open>.catch\<close> handler throw at \<open>err.stack\<close>, so the promise of \<open>execute\<close> is
  rejected; a function that throws makes \<open>execute\<close> throw the same error; a
  function that returns no promise makes it throw at \<open>.catch\<close>.
\<close>

fun executeAwait :: "callable \<Rightarrow> event list \<times> outcome" where
  "executeAwait (Async method) = (execute method, Fulfilled)"
| "executeAwait (RejectsNothing name) = ([Invoked name], Rejected (TypeError ''stack''))"
| "executeAwait (Throws name err) = ([Invoked name], Rejected err)"
| "executeAwait (NoPromise name) = ([Invoked name], Rejected (TypeError ''catch''))"

text \<open>
  \<open>await a.load(); await b.load(); ...\<close>: each load is called when the one before
  it has been fulfilled, and a rejection ends the sequence.
\<close>

fun loadChain :: "env \<Rightarrow> place list \<Rightarrow> event list" where
  "loadChain e [] = []"
| "loadChain e (p # ps) =
     Load p None # Loaded p (loadResult e p) #
       (case loadResult e p of Fulfilled \<Rightarrow> loadChain e ps | Rejected err \<Rightarrow> [])"

text \<open>
  The event loop. Each pending task is the list of events it still has to produce;
  the schedule picks, step by step, which pending task runs next (an exhausted
  schedule picks the first one). Every schedule is a possible run.
\<close>

function interleave :: "nat list \<Rightarrow> 'a list list \<Rightarrow> 'a list" where
  "interleave sched tasks =
     (let live = filter (\<lambda>t. t \<noteq> []) tasks in
      if live = [] then []
      else (let i = (case sched of [] \<Rightarrow> 0 | c # _ \<Rightarrow> c mod length live);
                t = live ! i
            in hd t # interleave (tl sched) (live[i := tl t])))"
  by pat_completeness auto
termination
proof (relation "measure (\<lambda>(sched, tasks). sum_list (map length tasks))", goal_cases)
  case 1
  show ?case by simp
next
  case (2 sched tasks live i t)
  have filt: "sum_list (map length (filter (\<lambda>t. t \<noteq> []) ts)) = sum_list (map length ts)"
    for ts :: "'a list list"
    by (induction ts) auto
  have i: "i < length live"
    unfolding 2(3) using 2(2) by (cases sched) simp_all
  have mem: "t \<in> set live"
    unfolding 2(4) using i by (rule nth_mem)
  then have "t \<in> set (filter (\<lambda>t. t \<noteq> []) tasks)"
    unfolding 2(1) .
  then have t: "t \<noteq> []"
    by simp
  have "sum_list ((map length live)[i := length (tl t)]) =
        sum_list (map length live) + length (tl t) - map length live ! i"
    using i by (simp add: sum_list_update)
  moreover have "map length live ! i = length t"
    unfolding 2(4) using i by simp
  moreover have "length t \<le> sum_list (map length live)"
    using mem by (simp add: member_le_sum_list)
  ultimately have "sum_list (map length (live[i := tl t])) < sum_list (map length live)"
    using t by (cases t) (auto simp: map_update)
  moreover have "sum_list (map length live) = sum_list (map length tasks)"
    unfolding 2(1) by (rule filt)
  ultimately show ?case
    by simp
qed

declare interleave.simps [simp del]

text \<open>
  \<open>Promise.allSettled([...])\<close>: the array is built first, so every task runs its
  synchronous first step in order; the rest of each task runs on the event loop, and
  the result is awaited until all of them have settled.
\<close>

definition allSettled :: "nat list \<Rightarrow> 'a list list \<Rightarrow> 'a list" where
  "allSettled sched tasks = concat (map (take 1) tasks) @ interleave sched (map (drop 1) tasks)"

definition fanOut :: "env \<Rightarrow> nat list \<Rightarrow> event list" where
  "fanOut e sched =
     allSettled sched
       [loadChain e [Schemas], loadChain e [Static], loadChain e [Resources],
        loadChain e [Lib, Db, Domain]]"

text \<open>The start hooks that the loads of a trace have pushed on \<open>starts\<close>.\<close>

fun queued :: "env \<Rightarrow> event list \<Rightarrow> hook list" where
  "queued e [] = []"
| "queued e (Loaded p r # rest) = loadStarts e p @ queued e rest"
| "queued e (ev # rest) = queued e rest"

text \<open>Lines 73 to 83 of \<open>init\<close>.\<close>

definition authBootstrap :: "env \<Rightarrow> application \<Rightarrow> event list \<times> application completion" where
  "authBootstrap e this =
     (case sandbox this of
        None \<Rightarrow> ([], Thrown (TypeError ''api''))
      | Some sb \<Rightarrow>
          (case apiAuth sb of
             None \<Rightarrow> ([], Returned this)
           | Some section \<Rightarrow>
               (case provider section of
                  Some p \<Rightarrow> ([], Returned (this\<lparr>auth := Some p\<rparr>))
                | None \<Rightarrow>
                    (let p = authFactory e (sessions (config this))
                     in ([AuthCreate (sessions (config this)) p],
                         Returned (this\<lparr>auth := Some p,
                                        sandbox := Some (sb\<lparr>apiAuth := Some (section\<lparr>provider := Some p\<rparr>)\<rparr>)\<rparr>))))))"

text \<open>
  \<open>init(kind)\<close> under the schedules of its two \<open>allSettled\<close> joins: the calls
  it makes, how its promise settles, and the application afterwards.
\<close>

definition init ::
  "env \<Rightarrow> nat list \<Rightarrow> nat list \<Rightarrow> application \<Rightarrow> string \<Rightarrow> event list \<times> outcome \<times> application" where
  "init e sched1 sched2 this0 kind' =
     (let this1 = this0\<lparr>kind := kind'\<rparr>;
          this2 = startWatch this1;
          this3 = createSandbox e this2;
          t1 = fanOut e sched1;
          this4 = this3\<lparr>starts := starts this3 @ queued e t1\<rparr>;
          t2 = allSettled sched2 (map execute (starts this4));
          t3 = loadChain e [Api];
          this5 = this4\<lparr>sandbox := map_option (\<lambda>sb. sb\<lparr>apiAuth := loadAuth e\<rparr>) (sandbox this4)\<rparr>
      in case loadResult e Api of
           Rejected err \<Rightarrow> (t1 @ t2 @ t3, Rejected err, this5)
         | Fulfilled \<Rightarrow>
             (let t4 = (if kind' = ''scheduler'' then loadChain e [Scheduler] else [])
              in case (if kind' = ''scheduler'' then loadResult e Scheduler else Fulfilled) of
                   Rejected err \<Rightarrow> (t1 @ t2 @ t3 @ t4, Rejected err, this5)
                 | Fulfilled \<Rightarrow>
                     (case authBootstrap e this5 of
                        (t5, Thrown err) \<Rightarrow> (t1 @ t2 @ t3 @ t4 @ t5, Rejected err, this5)
                      | (t5, Returned this6) \<Rightarrow>
                          (t1 @ t2 @ t3 @ t4 @ t5, Fulfilled,
                           this6\<lparr>starts := [], initialization := False\<rparr>))))"

text \<open>
  \<open>stopPlace(name)\<close> for the three module trees that the sandbox shares: the loop
  ends at the first \<open>await\<close> that throws.
\<close>

fun stopModules :: "(string \<times> module) list \<Rightarrow> event list \<times> outcome" where
  "stopModules [] = ([], Fulfilled)"
| "stopModules ((moduleName, m) # rest) =
     (case stop m of
        None \<Rightarrow> stopModules rest
      | Some f \<Rightarrow>
          (case executeAwait f of
             (t, Rejected err) \<Rightarrow> (t, Rejected err)
           | (t, Fulfilled) \<Rightarrow> (case stopModules rest of (t', r) \<Rightarrow> (t @ t', r))))"

definition stopPlace :: "application \<Rightarrow> place \<Rightarrow> event list \<times> outcome" where
  "stopPlace this name =
     (case sandbox this of
        None \<Rightarrow> ([], Rejected (TypeError (placeName name)))
      | Some sb \<Rightarrow> stopModules (tree this name))"

definition shutdown :: "application \<Rightarrow> event list \<times> outcome \<times> application" where
  "shutdown this0 =
     (let this = this0\<lparr>finalization := True\<rparr> in
      case stopPlace this Domain of
        (t1, Rejected err) \<Rightarrow> (t1, Rejected err, this)
      | (t1, Fulfilled) \<Rightarrow>
          (case stopPlace this Db of
             (t2, Rejected err) \<Rightarrow> (t1 @ t2, Rejected err, this)
           | (t2, Fulfilled) \<Rightarrow>
               (case stopPlace this Lib of
                  (t3, Rejected err) \<Rightarrow> (t1 @ t2 @ t3, Rejected err, this)
                | (t3, Fulfilled) \<Rightarrow>
                    (t1 @ t2 @ t3 @
                       (case server this of None \<Rightarrow> [] | Some l \<Rightarrow> [ServerClose]) @ [LoggerClose],
                     Fulfilled, this))))"

text \<open>\<open>a\<close> happens before the first \<open>b\<close> of a trace, if \<open>b\<close> happens at all.\<close>

definition precedes :: "'a \<Rightarrow> 'a \<Rightarrow> 'a list \<Rightarrow> bool" where
  "precedes a b t = (b \<in> set t \<longrightarrow> a \<in> set (takeWhile (\<lambda>x. x \<noteq> b) t))"

text \<open>
  Notions used to state the properties of the lifecycle: what the modules of a place
  export under \<open>stop\<close>, in the order of its tree, and the run of a list of such
  callables one after the other up to the first failure; the start hooks on the queue
  when \<open>init\<close> runs them (those queued before, then those pushed by the loads of the
  fan-out); the place a load event belongs to; the provider construction that follows
  from what the api load published; and the providers constructed in a trace.
\<close>

definition stopMembers :: "application \<Rightarrow> place \<Rightarrow> callable list" where
  "stopMembers this p = List.map_filter (\<lambda>(moduleName, m). stop m) (tree this p)"

fun runStops :: "callable list \<Rightarrow> event list \<times> outcome" where
  "runStops [] = ([], Fulfilled)"
| "runStops (f # fs) =
     (case executeAwait f of
        (t, Rejected err) \<Rightarrow> (t, Rejected err)
      | (t, Fulfilled) \<Rightarrow> (case runStops fs of (t', r) \<Rightarrow> (t @ t', r)))"

fun constructions :: "event list \<Rightarrow> (string \<times> provider) list" where
  "constructions [] = []"
| "constructions (AuthCreate s p # rest) = (s, p) # constructions rest"
| "constructions (ev # rest) = constructions rest"

definition startsAt :: "env \<Rightarrow> nat list \<Rightarrow> application \<Rightarrow> hook list" where
  "startsAt e sched1 this = starts this @ queued e (fanOut e sched1)"

fun loadEventOf :: "event \<Rightarrow> place option" where
  "loadEventOf (Load p x) = Some p"
| "loadEventOf (Loaded p r) = Some p"
| "loadEventOf ev = None"

definition authEvents :: "env \<Rightarrow> application \<Rightarrow> event list" where
  "authEvents e this =
     (case loadAuth e of
        None \<Rightarrow> []
      | Some section \<Rightarrow>
          (case provider section of
             Some p \<Rightarrow> []
           | None \<Rightarrow> [AuthCreate (sessions (config this)) (authFactory e (sessions (config this)))]))"

section \<open>Example configurations\<close>

definition exampleEnv :: env where
  "exampleEnv =
     \<lparr>sep = CHR ''/'', threadId = 1,
      stat = (\<lambda>p. if p = ''/srv/application/lib/foo.js'' then StatFile
                   else if p = ''/srv/application/lib/utils'' then StatDirectory
                   else if p = ''/srv/application/tmp/x.js'' then StatFile
                   else if p = ''/srv/application/scheduler/job.js'' then StatFile
                   else StatError),
      loadResult = (\<lambda>p. Fulfilled),
      loadStarts = (\<lambda>p. if p = Domain then [Hook ''domain/jobs.start'' Fulfilled] else []),
      loadAuth = None,
      authFactory = (\<lambda>s. Provider 1)\<rparr>"

definition exampleConfig :: config where
  "exampleConfig = \<lparr>watchTimeout = 1000, sessions = ''sid''\<rparr>"

definition exampleInterface :: interface where
  "exampleInterface =
     \<lparr>defaultVersion = Num 2,
      versions = [''1'' \<mapsto> [''add'' \<mapsto> Procedure 1], ''2'' \<mapsto> [''add'' \<mapsto> Procedure 2]]\<rparr>"

definition exampleApp :: application where
  "exampleApp =
     (newApplication exampleEnv ''/srv'' exampleConfig)
       \<lparr>collection := [''example'' \<mapsto> exampleInterface],
        signatures := [''example.1'' \<mapsto> Signature 1, ''example.2'' \<mapsto> Signature 2]\<rparr>"

definition startingApp :: application where
  "startingApp =
     exampleApp\<lparr>starts := [Hook ''lib/cache.start'' (Rejected (Error ''no cache'' ''ECACHE''))]\<rparr>"


definition apiFailsEnv :: env where
  "apiFailsEnv =
     exampleEnv\<lparr>loadResult :=
       (\<lambda>p. if p = Api then Rejected (Error ''unreadable'' ''EACCES'') else Fulfilled)\<rparr>"

definition sandboxedApp :: "auth_section option \<Rightarrow> application" where
  "sandboxedApp a =
     exampleApp\<lparr>sandbox := Some \<lparr>workerId = ''W1'', serverDescriptor = None, apiAuth = a\<rparr>\<rparr>"

definition runningApp :: application where
  "runningApp =
     (sandboxedApp None)
       \<lparr>initialization := False,
        server := Some \<lparr>host = ''127.0.0.1'', port = 8000, protocol = ''http''\<rparr>,
        tree := (\<lambda>p. if p = Domain
                       then [(''orders'', \<lparr>stop = Some (Async (Hook ''domain/orders.stop''
                                                   (Rejected (Error ''busy'' ''EBUSY''))))\<rparr>),
                             (''prices'', \<lparr>stop = None\<rparr>)]
                     else if p = Db
                       then [(''pg'', \<lparr>stop = Some (Async (Hook ''db/pg.stop'' Fulfilled))\<rparr>)]
                     else [])\<rparr>"

definition brokenStopApp :: application where
  "brokenStopApp =
     runningApp
       \<lparr>tree := (\<lambda>p. if p = Domain
                       then [(''orders'', \<lparr>stop = Some (Throws ''domain/orders.stop''
                                                   (Error ''busy'' ''EBUSY''))\<rparr>)]
                     else if p = Db
                       then [(''pg'', \<lparr>stop = Some (Async (Hook ''db/pg.stop'' Fulfilled))\<rparr>)]
                     else [])\<rparr>"

definition publishingEnv :: "auth_section option \<Rightarrow> env" where
  "publishingEnv a = exampleEnv\<lparr>loadAuth := a\<rparr>"

section \<open>Strings and numbers: basic facts\<close>

lemma split_no_sep: "c \<notin> set s \<Longrightarrow> split c s = [s]"
  by (induction s) auto

lemma split_prefix: "c \<notin> set s \<Longrightarrow> split c (s @ c # t) = s # split c t"
  by (induction s) auto

lemma split_nonempty: "split c s \<noteq> []"
  by (induction s) (auto split: list.splits)

lemma digitValue_digitChar: "digitValue (digitChar d) = Some (d mod 10)"
proof -
  have enum: "k = 0 \<or> k = 1 \<or> k = 2 \<or> k = 3 \<or> k = 4 \<or> k = 5 \<or> k = 6 \<or> k = 7 \<or> k = 8 \<or> k = 9"
    if "k < 10" for k :: nat
    using that by arith
  have "digitValue (''0123456789'' ! k) = Some k" if "k < 10" for k :: nat
    using enum [OF that] by (auto simp: digitValue_def)
  then show ?thesis
    by (simp add: digitChar_def)
qed

lemma radixDigit_digitChar: "radixDigit 10 (digitChar d)"
  by (simp add: radixDigit_def digitValue_digitChar)

lemma digits_small: "n < 10 \<Longrightarrow> digits n = [digitChar n]"
  by (subst digits.simps) simp

lemma digits_nonempty: "digits n \<noteq> []"
  by (subst digits.simps) simp

lemma digits_all: "\<forall>c \<in> set (digits n). radixDigit 10 c"
proof (induction n rule: digits.induct)
  case (1 n)
  then show ?case
    by (subst digits.simps) (auto simp: radixDigit_digitChar)
qed

lemma mathInt_snoc:
  "mathInt r (z @ [c]) = mathInt r z * r + (case digitValue c of None \<Rightarrow> 0 | Some d \<Rightarrow> d)"
  by (simp add: mathInt_def)

lemma mathInt_digits: "mathInt 10 (digits n) = n"
proof (induction n rule: digits.induct)
  case (1 n)
  show ?case
  proof (cases "n < 10")
    case True
    then show ?thesis
      by (subst digits.simps) (simp add: mathInt_def digitValue_digitChar)
  next
    case False
    with 1 have "mathInt 10 (digits (n div 10)) = n div 10"
      by simp
    with False show ?thesis
      by (subst digits.simps) (simp add: mathInt_snoc digitValue_digitChar)
  qed
qed

lemma radixDigit_plain:
  "radixDigit 10 c \<Longrightarrow>
   \<not> whitespace c \<and> c \<noteq> CHR ''+'' \<and> c \<noteq> CHR ''-'' \<and> c \<noteq> CHR ''*'' \<and>
   c \<noteq> CHR ''x'' \<and> c \<noteq> CHR ''X''"
  by (auto simp: radixDigit_def digitValue_def whitespace_def Let_def split: if_splits)

lemma hd_digits: "radixDigit 10 (hd (digits n))"
  using digits_all [of n] digits_nonempty [of n] by (cases "digits n") auto

lemma takeWhile_digits: "takeWhile (radixDigit 10) (digits n) = digits n"
  using digits_all by (simp add: takeWhile_eq_all_conv)

lemma dropWhile_digits: "dropWhile whitespace (digits n) = digits n"
  using hd_digits [of n] digits_nonempty [of n] radixDigit_plain
  by (cases "digits n") auto

lemma parseInt_digits: "parseInt (digits n) (Some 10) = Num (int n)"
  using hd_digits [of n] digits_nonempty [of n] radixDigit_plain [of "hd (digits n)"]
  by (simp add: parseInt_def Let_def dropWhile_digits takeWhile_digits mathInt_digits)

lemma parseInt_neg_digits: "parseInt (CHR ''-'' # digits n) (Some 10) = Num (- int n)"
  using digits_nonempty [of n]
  by (simp add: parseInt_def Let_def whitespace_def takeWhile_digits mathInt_digits)

lemma parseInt_toString: "parseInt (toString v) (Some 10) = v"
proof (cases v)
  case NaN
  then show ?thesis
    by (simp add: toString_def parseInt_def Let_def whitespace_def radixDigit_def digitValue_def)
next
  case (Num i)
  then show ?thesis
    by (simp add: toString_def parseInt_digits parseInt_neg_digits)
qed

lemma toString_not_star: "toString v \<noteq> ''*''"
proof (cases v)
  case NaN
  then show ?thesis
    by (simp add: toString_def)
next
  case (Num i)
  have "digits n \<noteq> ''*''" for n
    using hd_digits [of n] radixDigit_plain [of "hd (digits n)"] by auto
  with Num show ?thesis
    by (simp add: toString_def)
qed

lemma digits_no_char: "\<not> radixDigit 10 c \<Longrightarrow> c \<notin> set (digits n)"
  using digits_all [of n] by auto

lemma digits_not_hex: "take 2 (digits n) \<noteq> [CHR ''0'', c] \<or> radixDigit 10 c"
proof (cases "take 2 (digits n) = [CHR ''0'', c]")
  case True
  then have "c \<in> set (take 2 (digits n))"
    by simp
  then have "c \<in> set (digits n)"
    by (rule in_set_takeD)
  with digits_all [of n] show ?thesis
    by auto
next
  case False
  then show ?thesis
    by simp
qed

lemma not_digit_x:
  "\<not> radixDigit 10 CHR ''x''" "\<not> radixDigit 10 CHR ''X''" "\<not> radixDigit 10 CHR ''.''"
  by (simp_all add: radixDigit_def digitValue_def)

lemma parseInt_digits_undefined: "parseInt (digits n) None = Num (int n)"
  using hd_digits [of n] digits_nonempty [of n] radixDigit_plain [of "hd (digits n)"]
    digits_not_hex [of n "CHR ''x''"] digits_not_hex [of n "CHR ''X''"] not_digit_x
  by (simp add: parseInt_def Let_def dropWhile_digits takeWhile_digits mathInt_digits)

lemma parseInt_neg_digits_undefined: "parseInt (CHR ''-'' # digits n) None = Num (- int n)"
  using digits_nonempty [of n]
    digits_not_hex [of n "CHR ''x''"] digits_not_hex [of n "CHR ''X''"] not_digit_x
  by (simp add: parseInt_def Let_def whitespace_def takeWhile_digits mathInt_digits)

lemma parseInt_toString_undefined: "parseInt (toString (Num i)) None = Num i"
  by (simp add: toString_def parseInt_digits_undefined parseInt_neg_digits_undefined)

lemma toString_no_dot: "CHR ''.'' \<notin> set (toString v)"
proof (cases v)
  case NaN
  then show ?thesis
    by (simp add: toString_def)
next
  case (Num i)
  then show ?thesis
    by (simp add: toString_def digits_no_char not_digit_x)
qed

lemma toString_2: "toString (Num 2) = ''2''"
  by (simp add: toString_def digits_small digitChar_def)

lemma toString_small:
  "toString (Num 1) = ''1''" "toString (Num 7) = ''7''" "toString NaN = ''NaN''"
  by (simp_all add: toString_def digits_small digitChar_def)

lemma parseInt_examples:
  "parseInt ''1'' (Some 10) = Num 1" "parseInt ''7'' (Some 10) = Num 7"
  "parseInt ''abc'' (Some 10) = NaN" "parseInt ''abc'' None = NaN"
  "parseInt ''01'' None = Num 1"
  by (simp_all add: parseInt_def whitespace_def radixDigit_def digitValue_def mathInt_def)

lemma substringFrom_drop: "substringFrom (a @ c # r) (int (length a) + 1) = r"
  by (simp add: substringFrom_def substring_def Let_def min_def max_def nat_add_distrib)

lemma indexOf_first: "c \<notin> set n \<Longrightarrow> indexOf (n @ c # r) c = int (length n)"
  by (induction n) (auto simp: Let_def)

lemma substring_prefix: "substring (n @ r) 0 (int (length n)) = n"
  by (simp add: substring_def Let_def min_def max_def)





section \<open>Interface registry: the default version alias\<close>

text \<open>
  C3. For a registered interface \<open>I\<close> whose default version is \<open>d\<close>,
  \<open>getMethod(I, '*', m)\<close> and \<open>getMethod(I, d.toString(), m)\<close> give the same
  result, for every method name \<open>m\<close>: the version \<open>'*'\<close> stands for the recorded
  default version.
\<close>

theorem getMethod_star_is_default:
  assumes "collection this I = Some iface" and "defaultVersion iface = d" and "safeInteger d"
  shows "getMethod this I ''*'' m = getMethod this I (toString d) m"
  using assms by (simp add: getMethod_def toString_not_star parseInt_toString)

theorem getMethod_star_is_default_witness:
  "collection exampleApp ''example'' = Some exampleInterface \<and>
   defaultVersion exampleInterface = Num 2 \<and> safeInteger (Num 2) \<and>
   getMethod exampleApp ''example'' ''*'' ''add'' =
     getMethod exampleApp ''example'' (toString (Num 2)) ''add'' \<and>
   getMethod exampleApp ''example'' ''*'' ''add'' = Returned (Some (Procedure 2))"
proof -
  have c: "collection exampleApp ''example'' = Some exampleInterface"
    by (simp add: exampleApp_def)
  have d: "defaultVersion exampleInterface = Num 2"
    by (simp add: exampleInterface_def)
  have s: "safeInteger (Num 2)"
    by (simp add: safeInteger_def)
  have v: "getMethod exampleApp ''example'' ''*'' ''add'' = Returned (Some (Procedure 2))"
    by (simp add: getMethod_def c exampleInterface_def toString_2 property_def)
  from c d s v getMethod_star_is_default [OF c d s, of "''add''"] show ?thesis
    by simp
qed

section \<open>Interface registry: misses\<close>




section \<open>Interface registry: version strings that are not numbers\<close>

text \<open>
  C9, as the code has it. An explicit version string that \<open>parseInt\<close> cannot read
  does not make the call fail: the version resolves to \<open>NaN\<close>, \<open>getMethod\<close>
  returns what the lookup of the method name finds in the entry that the interface
  stores under the key \<open>'NaN'\<close> (so \<open>null\<close> when there is no such entry, or when
  the interface is unknown), and \<open>introspect\<close> maps the interface to the signature
  stored under \<open>name.NaN\<close> (\<open>undefined\<close> when there is none; an unknown name
  gets no key unless a plain object inherits it). No error value is produced.
\<close>

theorem malformed_version_not_found:
  assumes "ver \<noteq> ''*''"
  shows "(parseInt ver (Some 10) = NaN \<longrightarrow>
            getMethod this iname ver m =
              (case collection this iname of
                 None \<Rightarrow> Returned None
               | Some iface \<Rightarrow>
                   (case versions iface ''NaN'' of
                      None \<Rightarrow> Returned None
                    | Some methods \<Rightarrow> Returned (property methods m)))) \<and>
         (parseInt ver None = NaN \<longrightarrow> CHR ''.'' \<notin> set iname \<longrightarrow> CHR ''.'' \<notin> set ver \<longrightarrow>
            introspect this [iname @ ''.'' @ ver] =
              Returned (case collection this iname of
                          None \<Rightarrow>
                            (if inherited iname \<and> iname \<noteq> ''__proto__''
                             then [iname \<mapsto> signatures this (iname @ ''.NaN'')]
                             else Map.empty)
                        | Some iface \<Rightarrow> [iname \<mapsto> signatures this (iname @ ''.NaN'')]))"
  using assms
  by (auto simp: getMethod_def introspect_def split_prefix split_no_sep toString_small
      split: option.splits)

text \<open>The version string \<open>'abc'\<close> on the example registry.\<close>

theorem malformed_version_not_found_witness:
  "''abc'' \<noteq> ''*'' \<and> parseInt ''abc'' (Some 10) = NaN \<and> parseInt ''abc'' None = NaN \<and>
   CHR ''.'' \<notin> set ''example'' \<and> CHR ''.'' \<notin> set ''abc'' \<and>
   getMethod exampleApp ''example'' ''abc'' ''add'' = Returned None \<and>
   introspect exampleApp [''example'' @ ''.'' @ ''abc''] = Returned [''example'' \<mapsto> None]"
proof -
  have n: "''abc'' \<noteq> ''*''"
    by simp
  have c: "collection exampleApp ''example'' = Some exampleInterface"
    by (simp add: exampleApp_def)
  have v: "versions exampleInterface ''NaN'' = None"
    by (simp add: exampleInterface_def)
  have s: "signatures exampleApp (''example'' @ ''.NaN'') = None"
    by (simp add: exampleApp_def newApplication_def)
  from malformed_version_not_found
         [OF n, where this = exampleApp and iname = "''example''" and m = "''add''"]
    parseInt_examples c v s
  show ?thesis
    by simp
qed

text \<open>
  Where the claim as stated fails: both calls return on the version string
  \<open>'abc'\<close> instead of failing with an error that carries a code.
\<close>

theorem malformed_version_counterexample:
  "getMethod exampleApp ''example'' ''abc'' ''add'' = Returned None \<and>
   introspect exampleApp [''example.abc''] = Returned [''example'' \<mapsto> None]"
  by (simp add: getMethod_def introspect_def exampleApp_def exampleInterface_def
      newApplication_def parseInt_examples toString_small)

section \<open>Introspection of a registered interface\<close>

text \<open>
  C10, as the code has it. For a registered interface \<open>I\<close> (a name without a dot)
  and any version string \<open>v\<close>, the result of \<open>introspect(['I.v'])\<close> has the key
  \<open>I\<close>, and nothing else. Its value is the entry of \<open>signatures\<close> under
  \<open>I + '.' + version\<close>, where \<open>version\<close> is the number resolved from the part of
  \<open>v\<close> before its first dot; the value is \<open>undefined\<close> when there is no such
  entry. That key is \<open>'I.v'\<close> itself when \<open>v\<close> is the decimal notation of an
  integer.
\<close>

theorem introspect_registered_key:
  assumes "collection this I = Some iface" and "CHR ''.'' \<notin> set I"
  shows "introspect this [I @ ''.'' @ v] =
           Returned [I \<mapsto> signatures this
                       (I @ ''.'' @ toString (resolved iface (hd (split CHR ''.'' v)) None))] \<and>
         (safeInteger (Num i) \<longrightarrow> v = toString (Num i) \<longrightarrow>
            introspect this [I @ ''.'' @ v] = Returned [I \<mapsto> signatures this (I @ ''.'' @ v)])"
proof -
  have sp: "split CHR ''.'' (I @ ''.'' @ v) = I # split CHR ''.'' v"
    using assms(2) split_prefix [of "CHR ''.''" I v] by simp
  obtain w ws where ws: "split CHR ''.'' v = w # ws"
    using split_nonempty [of "CHR ''.''" v] by (cases "split CHR ''.'' v") auto
  have first: "introspect this [I @ ''.'' @ v] =
           Returned [I \<mapsto> signatures this
                       (I @ ''.'' @ toString (resolved iface (hd (split CHR ''.'' v)) None))]"
    using assms(1) by (simp add: introspect_def sp ws resolved_def del: append.simps)
  have "resolved iface (hd (split CHR ''.'' (toString (Num i)))) None = Num i"
    by (simp add: split_no_sep toString_no_dot resolved_def toString_not_star
        parseInt_toString_undefined)
  with first show ?thesis
    by auto
qed

text \<open>Version 7 of the example interface, which has no signature entry.\<close>

theorem introspect_registered_key_witness:
  "collection exampleApp ''example'' = Some exampleInterface \<and> CHR ''.'' \<notin> set ''example'' \<and>
   safeInteger (Num 7) \<and> ''7'' = toString (Num 7) \<and>
   introspect exampleApp [''example'' @ ''.'' @ ''7''] =
     Returned [''example'' \<mapsto> signatures exampleApp (''example'' @ ''.'' @ ''7'')] \<and>
   signatures exampleApp (''example'' @ ''.'' @ ''7'') = None"
proof -
  have c: "collection exampleApp ''example'' = Some exampleInterface"
    by (simp add: exampleApp_def)
  have d: "CHR ''.'' \<notin> set ''example''"
    by simp
  have s: "safeInteger (Num 7)"
    by (simp add: safeInteger_def)
  have t: "''7'' = toString (Num 7)"
    by (simp add: toString_small)
  have u: "signatures exampleApp (''example'' @ ''.'' @ ''7'') = None"
    by (simp add: exampleApp_def newApplication_def)
  from introspect_registered_key [OF c d, where v = "''7''" and i = 7] s t
  have "introspect exampleApp [''example'' @ ''.'' @ ''7''] =
     Returned [''example'' \<mapsto> signatures exampleApp (''example'' @ ''.'' @ ''7'')]"
    by blast
  with c d s t u show ?thesis
    by blast
qed

text \<open>
  Where the claim as stated fails: for the version string \<open>'01'\<close> the value is the
  signature stored for version 1, although nothing is stored under \<open>'example.01'\<close>.
\<close>

theorem introspect_version_counterexample:
  "introspect exampleApp [''example.01''] = Returned [''example'' \<mapsto> Some (Signature 1)] \<and>
   signatures exampleApp ''example.01'' = None"
  by (simp add: introspect_def exampleApp_def exampleInterface_def
      newApplication_def parseInt_examples toString_small)

section \<open>Hot reload: the place of a path\<close>

lemma placeField_placeName: "placeField (placeName p) = Some p"
  by (cases p) (simp_all add: placeField_def places_def)

lemma placeName_no_sep: "c = CHR ''/'' \<or> c = CHR 0x5C \<Longrightarrow> c \<notin> set (placeName p)"
  by (cases p) auto

lemma relPathOf_under: "relPathOf this (path this @ c # r) = r"
  by (simp add: relPathOf_def substringFrom_drop)

lemma placeOf_under:
  "sep e \<notin> set n \<Longrightarrow> placeOf e this (path this @ sep e # n @ sep e # r) = n"
  using substring_prefix [of n "sep e # r"]
  by (simp add: placeOf_def relPathOf_under indexOf_first Let_def)

lemma examplePath: "path exampleApp = ''/srv/application''"
  by (simp add: exampleApp_def newApplication_def exampleEnv_def pathJoin_def)

lemma exampleSep: "sep exampleEnv = CHR ''/''" "threadId exampleEnv = 1"
  by (simp_all add: exampleEnv_def)

lemma example_tmp: "placeOf exampleEnv exampleApp ''/srv/application/tmp/x.js'' = ''tmp''"
  using placeOf_under [of exampleEnv "''tmp''" exampleApp "''x.js''"]
  by (simp add: examplePath exampleSep)

section \<open>Hot reload: events under a known place\<close>

text \<open>
  C5, as the code has it. A change event on a path \<open>root/place/rest\<close> under one of
  the eight places: when \<open>fs.stat\<close> fails the event is dropped, with no call at
  all; when the path is a directory the only call is \<open>place.load(path)\<close>; when it
  is a file under one of the seven places other than the scheduler, the only call on
  a place is \<open>place.change(path)\<close>, on the place that owns the path, and the debug
  line is written before it exactly when the worker thread id is 1. For a file under
  the scheduler place, which has no \<open>change\<close>, the debug line is written in the
  same way and then the call raises a \<open>TypeError\<close>; no place is called.
\<close>

theorem change_event_routing:
  assumes "sep e = CHR ''/'' \<or> sep e = CHR 0x5C"
    and "filePath = path this @ sep e # placeName p @ sep e # rest"
  shows "onChange e this filePath =
           (case stat e filePath of
              StatError \<Rightarrow> ([], Returned ())
            | StatDirectory \<Rightarrow> ([Load p (Some filePath)], Returned ())
            | StatFile \<Rightarrow>
                (if p = Scheduler
                 then (if threadId e = 1
                       then [ConsoleDebug (''Reload: /'' @ placeName p @ sep e # rest)] else [],
                       Thrown (TypeError ''change''))
                 else ((if threadId e = 1
                        then [ConsoleDebug (''Reload: /'' @ placeName p @ sep e # rest)] else []) @
                       [Change p filePath], Returned ())))"
proof -
  have "sep e \<notin> set (placeName p)"
    using assms(1) by (rule placeName_no_sep)
  then have "placeOf e this filePath = placeName p"
    unfolding assms(2) by (rule placeOf_under)
  moreover have "relPathOf this filePath = placeName p @ sep e # rest"
    unfolding assms(2) by (rule relPathOf_under)
  moreover have "placeField (placeName p) = Some p"
    by (rule placeField_placeName)
  ultimately show ?thesis
    by (cases p) (simp_all add: onChange_def hasMember_def split: stat_result.splits)
qed

text \<open>
  A file, a directory and a vanished file under \<open>lib\<close>, and a file under
  \<open>scheduler\<close>, on the worker with thread id 1.
\<close>

theorem change_event_routing_witness:
  "(sep exampleEnv = CHR ''/'' \<or> sep exampleEnv = CHR 0x5C) \<and>
   ''/srv/application/lib/foo.js'' = path exampleApp @ sep exampleEnv # placeName Lib @ sep exampleEnv # ''foo.js'' \<and>
   stat exampleEnv ''/srv/application/lib/foo.js'' = StatFile \<and>
   onChange exampleEnv exampleApp ''/srv/application/lib/foo.js'' =
     ([ConsoleDebug ''Reload: /lib/foo.js'', Change Lib ''/srv/application/lib/foo.js''], Returned ()) \<and>
   ''/srv/application/lib/utils'' = path exampleApp @ sep exampleEnv # placeName Lib @ sep exampleEnv # ''utils'' \<and>
   stat exampleEnv ''/srv/application/lib/utils'' = StatDirectory \<and>
   onChange exampleEnv exampleApp ''/srv/application/lib/utils'' =
     ([Load Lib (Some ''/srv/application/lib/utils'')], Returned ()) \<and>
   ''/srv/application/lib/gone.js'' = path exampleApp @ sep exampleEnv # placeName Lib @ sep exampleEnv # ''gone.js'' \<and>
   stat exampleEnv ''/srv/application/lib/gone.js'' = StatError \<and>
   onChange exampleEnv exampleApp ''/srv/application/lib/gone.js'' = ([], Returned ()) \<and>
   ''/srv/application/scheduler/job.js'' =
     path exampleApp @ sep exampleEnv # placeName Scheduler @ sep exampleEnv # ''job.js'' \<and>
   stat exampleEnv ''/srv/application/scheduler/job.js'' = StatFile \<and>
   onChange exampleEnv exampleApp ''/srv/application/scheduler/job.js'' =
     ([ConsoleDebug ''Reload: /scheduler/job.js''], Thrown (TypeError ''change''))"
proof -
  have s: "sep exampleEnv = CHR ''/'' \<or> sep exampleEnv = CHR 0x5C"
    by (simp add: exampleSep)
  have p1: "''/srv/application/lib/foo.js'' =
      path exampleApp @ sep exampleEnv # placeName Lib @ sep exampleEnv # ''foo.js''"
    by (simp add: examplePath exampleSep)
  have p2: "''/srv/application/lib/utils'' =
      path exampleApp @ sep exampleEnv # placeName Lib @ sep exampleEnv # ''utils''"
    by (simp add: examplePath exampleSep)
  have p3: "''/srv/application/lib/gone.js'' =
      path exampleApp @ sep exampleEnv # placeName Lib @ sep exampleEnv # ''gone.js''"
    by (simp add: examplePath exampleSep)
  have p4: "''/srv/application/scheduler/job.js'' =
      path exampleApp @ sep exampleEnv # placeName Scheduler @ sep exampleEnv # ''job.js''"
    by (simp add: examplePath exampleSep)
  have s1: "stat exampleEnv ''/srv/application/lib/foo.js'' = StatFile"
    by (simp add: exampleEnv_def)
  have s2: "stat exampleEnv ''/srv/application/lib/utils'' = StatDirectory"
    by (simp add: exampleEnv_def)
  have s3: "stat exampleEnv ''/srv/application/lib/gone.js'' = StatError"
    by (simp add: exampleEnv_def)
  have s4: "stat exampleEnv ''/srv/application/scheduler/job.js'' = StatFile"
    by (simp add: exampleEnv_def)
  have r1: "onChange exampleEnv exampleApp ''/srv/application/lib/foo.js'' =
     ([ConsoleDebug ''Reload: /lib/foo.js'', Change Lib ''/srv/application/lib/foo.js''], Returned ())"
    using change_event_routing [OF s p1] by (simp add: s1 exampleSep)
  have r2: "onChange exampleEnv exampleApp ''/srv/application/lib/utils'' =
     ([Load Lib (Some ''/srv/application/lib/utils'')], Returned ())"
    using change_event_routing [OF s p2] by (simp add: s2)
  have r3: "onChange exampleEnv exampleApp ''/srv/application/lib/gone.js'' = ([], Returned ())"
    using change_event_routing [OF s p3] by (simp add: s3)
  have r4: "onChange exampleEnv exampleApp ''/srv/application/scheduler/job.js'' =
     ([ConsoleDebug ''Reload: /scheduler/job.js''], Thrown (TypeError ''change''))"
    using change_event_routing [OF s p4] by (simp add: s4 exampleSep)
  from s p1 p2 p3 p4 s1 s2 s3 s4 r1 r2 r3 r4 show ?thesis
    by blast
qed

text \<open>
  Where the claim as stated fails: a change of a file under \<open>scheduler\<close>, a known
  place, calls no \<open>change\<close> and ends in a \<open>TypeError\<close>.
\<close>

theorem change_scheduler_counterexample:
  "placeField (placeOf exampleEnv exampleApp ''/srv/application/scheduler/job.js'') = Some Scheduler \<and>
   stat exampleEnv ''/srv/application/scheduler/job.js'' = StatFile \<and>
   onChange exampleEnv exampleApp ''/srv/application/scheduler/job.js'' =
     ([ConsoleDebug ''Reload: /scheduler/job.js''], Thrown (TypeError ''change''))"
proof -
  have p: "placeOf exampleEnv exampleApp ''/srv/application/scheduler/job.js'' = ''scheduler''"
    using placeOf_under [of exampleEnv "''scheduler''" exampleApp "''job.js''"]
    by (simp add: examplePath exampleSep)
  have r: "relPathOf exampleApp ''/srv/application/scheduler/job.js'' = ''scheduler/job.js''"
    using relPathOf_under [of exampleApp "CHR ''/''" "''scheduler/job.js''"]
    by (simp add: examplePath)
  have f: "placeField ''scheduler'' = Some Scheduler"
    by (simp add: placeField_def places_def)
  have s: "stat exampleEnv ''/srv/application/scheduler/job.js'' = StatFile"
    by (simp add: exampleEnv_def)
  show ?thesis
    by (simp add: onChange_def p r f s hasMember_def exampleSep)
qed

section \<open>Hot reload: events outside the places\<close>

text \<open>
  C2, as the code has it. When the first component of the path under the application
  root is not the name of a place, no \<open>load\<close>, \<open>change\<close> or \<open>delete\<close> call
  is made on any place. A change event whose \<open>fs.stat\<close> fails is dropped in
  silence. Every other event is not ignored: the member call on the missing place
  raises a \<open>TypeError\<close>, which leaves the \<open>fs.stat\<close> callback of a change event
  (after the debug line, on worker 1, for a file) and rejects the promise of the
  delete listener.
\<close>

theorem unknown_place_event:
  assumes "placeField (placeOf e this filePath) = None"
  shows "onDelete e this filePath = ([], Rejected (TypeError ''delete'')) \<and>
         onChange e this filePath =
           (case stat e filePath of
              StatError \<Rightarrow> ([], Returned ())
            | StatDirectory \<Rightarrow> ([], Thrown (TypeError ''load''))
            | StatFile \<Rightarrow>
                (if threadId e = 1
                 then [ConsoleDebug (''Reload: /'' @ relPathOf this filePath)] else [],
                 Thrown (TypeError ''change'')))"
  using assms by (simp add: onDelete_def onChange_def split: stat_result.splits)

text \<open>The directory \<open>tmp\<close> is not a place.\<close>

theorem unknown_place_event_witness:
  "placeField (placeOf exampleEnv exampleApp ''/srv/application/tmp/x.js'') = None \<and>
   onDelete exampleEnv exampleApp ''/srv/application/tmp/x.js'' = ([], Rejected (TypeError ''delete'')) \<and>
   onChange exampleEnv exampleApp ''/srv/application/tmp/x.js'' =
     ([ConsoleDebug ''Reload: /tmp/x.js''], Thrown (TypeError ''change''))"
proof -
  have u: "placeField (placeOf exampleEnv exampleApp ''/srv/application/tmp/x.js'') = None"
    by (simp add: example_tmp placeField_def places_def)
  have st: "stat exampleEnv ''/srv/application/tmp/x.js'' = StatFile"
    by (simp add: exampleEnv_def)
  have rp: "relPathOf exampleApp ''/srv/application/tmp/x.js'' = ''tmp/x.js''"
    using relPathOf_under [of exampleApp "CHR ''/''" "''tmp/x.js''"] by (simp add: examplePath)
  from unknown_place_event [OF u] u show ?thesis
    by (simp add: st rp exampleSep)
qed

text \<open>
  Where the claim as stated fails: a delete event under \<open>tmp\<close> ends in a
  \<open>TypeError\<close> that nothing catches.
\<close>

theorem unknown_place_counterexample:
  "onDelete exampleEnv exampleApp ''/srv/application/tmp/x.js'' =
     ([], Rejected (TypeError ''delete''))"
  by (simp add: onDelete_def example_tmp placeField_def places_def)

section \<open>The event loop and the traces of the lifecycle: basic facts\<close>

lemma concat_filter_nonempty: "concat (filter (\<lambda>t. t \<noteq> []) ts) = concat ts"
  by (induction ts) auto

lemma set_concat_update:
  "i < length xs \<Longrightarrow> xs ! i = a # r \<Longrightarrow> insert a (set (concat (xs[i := r]))) = set (concat xs)"
proof (induction xs arbitrary: i)
  case Nil
  then show ?case by simp
next
  case (Cons x xs)
  show ?case
  proof (cases i)
    case 0
    with Cons.prems show ?thesis by auto
  next
    case (Suc j)
    with Cons.prems have "insert a (set (concat (xs[j := r]))) = set (concat xs)"
      by (intro Cons.IH) simp_all
    with Suc show ?thesis by auto
  qed
qed

lemma interleave_done: "filter (\<lambda>t. t \<noteq> []) tasks = [] \<Longrightarrow> interleave sched tasks = []"
  by (subst interleave.simps) simp

lemma interleave_step:
  "live = filter (\<lambda>t. t \<noteq> []) tasks \<Longrightarrow> live \<noteq> [] \<Longrightarrow>
   i = (case sched of [] \<Rightarrow> 0 | c # _ \<Rightarrow> c mod length live) \<Longrightarrow>
   interleave sched tasks = hd (live ! i) # interleave (tl sched) (live[i := tl (live ! i)])"
  by (subst interleave.simps, cases sched) (simp_all add: Let_def)

lemma set_interleave: "set (interleave sched tasks) = set (concat tasks)"
proof (induction sched tasks rule: interleave.induct)
  case (1 sched tasks)
  define live where "live = filter (\<lambda>t. t \<noteq> []) tasks"
  show ?case
  proof (cases "live = []")
    case True
    then have "interleave sched tasks = []"
      by (simp add: interleave_done live_def)
    moreover from True have "concat tasks = []"
      using concat_filter_nonempty [of tasks] by (simp add: live_def)
    ultimately show ?thesis by simp
  next
    case False
    define i where "i = (case sched of [] \<Rightarrow> 0 | c # _ \<Rightarrow> c mod length live)"
    define t where "t = live ! i"
    have i: "i < length live"
      using False by (cases sched) (simp_all add: i_def)
    then have "t \<in> set live"
      by (simp add: t_def)
    then have "t \<noteq> []"
      by (simp add: live_def)
    then have t: "live ! i = hd t # tl t"
      by (simp add: t_def)
    have unfold: "interleave sched tasks = hd t # interleave (tl sched) (live[i := tl t])"
      unfolding t_def using live_def \<open>live \<noteq> []\<close> i_def by (rule interleave_step)
    have "set (interleave (tl sched) (live[i := tl t])) = set (concat (live[i := tl t]))"
      using False by (intro 1 [OF live_def _ i_def t_def]) 
    then have "set (interleave sched tasks) = insert (hd t) (set (concat (live[i := tl t])))"
      by (simp add: unfold)
    also have "\<dots> = set (concat live)"
      using i t by (rule set_concat_update)
    also have "\<dots> = set (concat tasks)"
      by (simp add: live_def concat_filter_nonempty)
    finally show ?thesis .
  qed
qed

lemma precedes_interleave:
  assumes "a \<noteq> b"
    and "\<forall>t \<in> set tasks. b \<in> set t \<longrightarrow> a \<in> set (takeWhile (\<lambda>x. x \<noteq> b) t)"
  shows "precedes a b (interleave sched tasks)"
  using assms(2)
proof (induction sched tasks rule: interleave.induct)
  case (1 sched tasks)
  define live where "live = filter (\<lambda>t. t \<noteq> []) tasks"
  show ?case
  proof (cases "live = []")
    case True
    then have "interleave sched tasks = []"
      by (simp add: interleave_done live_def)
    then show ?thesis
      by (simp add: precedes_def)
  next
    case False
    define i where "i = (case sched of [] \<Rightarrow> 0 | c # _ \<Rightarrow> c mod length live)"
    have i: "i < length live"
      using False by (cases sched) (simp_all add: i_def)
    then have mem: "live ! i \<in> set live"
      by simp
    then have "live ! i \<noteq> []"
      by (simp add: live_def)
    then obtain x r where t: "live ! i = x # r"
      by (cases "live ! i") auto
    have "live ! i \<in> set tasks"
      using mem unfolding live_def by simp
    then have tasks: "x # r \<in> set tasks"
      by (simp only: t)
    have "interleave sched tasks = hd (live ! i) # interleave (tl sched) (live[i := tl (live ! i)])"
      using live_def False i_def by (rule interleave_step)
    then have unfold: "interleave sched tasks = x # interleave (tl sched) (live[i := r])"
      by (simp add: t)
    have first: "x \<noteq> b"
    proof
      assume "x = b"
      then have "b \<in> set (x # r)" and "takeWhile (\<lambda>y. y \<noteq> b) (x # r) = []"
        by simp_all
      with 1(2) tasks show False
        by fastforce
    qed
    show ?thesis
    proof (cases "x = a")
      case True
      with assms(1) show ?thesis
        by (simp add: unfold precedes_def)
    next
      case neq: False
      have "\<forall>u\<in>set (live[i := r]). b \<in> set u \<longrightarrow> a \<in> set (takeWhile (\<lambda>y. y \<noteq> b) u)"
      proof (intro ballI impI)
        fix u assume u: "u \<in> set (live[i := r])" and b: "b \<in> set u"
        from u have "u = r \<or> u \<in> set live"
          using set_update_subset_insert [of live i r] by auto
        then show "a \<in> set (takeWhile (\<lambda>y. y \<noteq> b) u)"
        proof
          assume eq: "u = r"
          with b have "b \<in> set (x # r)"
            by simp
          with 1(2) tasks have "a \<in> set (takeWhile (\<lambda>y. y \<noteq> b) (x # r))"
            by blast
          with first neq eq show ?thesis
            by simp
        next
          assume "u \<in> set live"
          then have "u \<in> set tasks"
            by (simp add: live_def)
          with 1(2) b show ?thesis
            by blast
        qed
      qed
      then have "precedes a b (interleave (tl sched) (live[i := tl (live ! i)]))"
        using False by (intro 1(1) [OF live_def _ i_def refl]) (simp_all add: t)
      with first show ?thesis
        by (simp add: unfold precedes_def t)
    qed
  qed
qed

lemma precedes_append_right:
  "b \<notin> set xs \<Longrightarrow> precedes a b ys \<Longrightarrow> precedes a b (xs @ ys)"
proof -
  assume b: "b \<notin> set xs" and p: "precedes a b ys"
  have "takeWhile (\<lambda>x. x \<noteq> b) (xs @ ys) = xs @ takeWhile (\<lambda>x. x \<noteq> b) ys"
    using b by (intro takeWhile_append2) auto
  with b p show ?thesis
    by (auto simp: precedes_def)
qed

lemma precedes_append_left:
  "precedes a b xs \<Longrightarrow> b \<notin> set ys \<Longrightarrow> precedes a b (xs @ ys)"
  by (auto simp: precedes_def takeWhile_append1)

lemma set_allSettled: "set (allSettled sched tasks) = set (concat tasks)"
proof -
  have "set (concat (map (take 1) ts)) \<union> set (concat (map (drop 1) ts)) = set (concat ts)"
    for ts :: "'a list list"
  proof (induction ts)
    case Nil
    then show ?case by simp
  next
    case (Cons t ts)
    have "set (take 1 t) \<union> set (drop 1 t) = set t"
      by (metis append_take_drop_id set_append)
    with Cons show ?case by auto
  qed
  then show ?thesis
    by (simp add: allSettled_def set_interleave)
qed

lemma loadChain_events: "ev \<in> set (loadChain e ps) \<Longrightarrow> loadEventOf ev \<in> Some ` set ps"
  by (induction ps) (auto split: outcome.splits)

lemma execute_events: "ev \<in> set (execute h) \<Longrightarrow> loadEventOf ev = None"
  by (auto simp: execute_def executeSettle_def split: outcome.splits)

lemma fanOut_events:
  "ev \<in> set (fanOut e sched) \<Longrightarrow>
   loadEventOf ev \<in> Some ` {Schemas, Static, Resources, Lib, Db, Domain}"
proof -
  assume "ev \<in> set (fanOut e sched)"
  then have "ev \<in> set (loadChain e [Schemas]) \<or> ev \<in> set (loadChain e [Static]) \<or>
     ev \<in> set (loadChain e [Resources]) \<or> ev \<in> set (loadChain e [Lib, Db, Domain])"
    unfolding fanOut_def set_allSettled by simp
  then show ?thesis
    by (auto dest!: loadChain_events)
qed

lemma hooks_events:
  "ev \<in> set (allSettled sched (map execute hs)) \<Longrightarrow> loadEventOf ev = None"
  unfolding set_allSettled by (auto dest: execute_events)

lemma fanOut_unfold:
  "fanOut e sched =
     [Load Schemas None, Load Static None, Load Resources None, Load Lib None] @
     interleave sched
       [[Loaded Schemas (loadResult e Schemas)], [Loaded Static (loadResult e Static)],
        [Loaded Resources (loadResult e Resources)], tl (loadChain e [Lib, Db, Domain])]"
  by (simp add: fanOut_def allSettled_def split: outcome.splits)

lemma fanOut_lib_db: "precedes (Loaded Lib Fulfilled) (Load Db None) (fanOut e sched)"
  unfolding fanOut_unfold
  by (intro precedes_append_right precedes_interleave) (auto split: outcome.splits)

lemma fanOut_db_domain: "precedes (Loaded Db Fulfilled) (Load Domain None) (fanOut e sched)"
  unfolding fanOut_unfold
  by (intro precedes_append_right precedes_interleave) (auto split: outcome.splits)

lemma fanOut_set:
  "set (fanOut e sched) =
     set (loadChain e [Schemas]) \<union> set (loadChain e [Static]) \<union> set (loadChain e [Resources]) \<union>
     set (loadChain e [Lib, Db, Domain])"
  unfolding fanOut_def set_allSettled by auto

lemma hooks_set: "h \<in> set hs \<Longrightarrow> set (execute h) \<subseteq> set (allSettled sched (map execute hs))"
  unfolding set_allSettled by auto

lemma no_load_in_hooks:
  "Load p x \<notin> set (allSettled sched (map execute hs))"
  using hooks_events [of "Load p x" sched hs] by auto

lemma no_load_in_auth: "Load p x \<notin> set (authEvents e this)"
  by (simp add: authEvents_def split: option.splits)

lemma fanOut_places:
  "p \<in> {Api, Scheduler} \<Longrightarrow> Load p x \<notin> set (fanOut e sched)"
  using fanOut_events [of "Load p x" e sched] by auto

lemma init_api_rejected:
  assumes "loadResult e Api = Rejected err"
  shows "fst (init e s1 s2 this k) =
           fanOut e s1 @ allSettled s2 (map execute (startsAt e s1 this)) @
           [Load Api None, Loaded Api (Rejected err)]"
    and "fst (snd (init e s1 s2 this k)) = Rejected err"
    and "initialization (snd (snd (init e s1 s2 this k))) = initialization this"
    and "finalization (snd (snd (init e s1 s2 this k))) = finalization this"
  using assms
  by (simp_all add: init_def Let_def startsAt_def startWatch_def createSandbox_def)

lemma init_scheduler_rejected:
  assumes "loadResult e Api = Fulfilled" and "loadResult e Scheduler = Rejected err"
  shows "fst (init e s1 s2 this ''scheduler'') =
           fanOut e s1 @ allSettled s2 (map execute (startsAt e s1 this)) @
           [Load Api None, Loaded Api Fulfilled, Load Scheduler None, Loaded Scheduler (Rejected err)]"
    and "fst (snd (init e s1 s2 this ''scheduler'')) = Rejected err"
    and "initialization (snd (snd (init e s1 s2 this ''scheduler''))) = initialization this"
    and "finalization (snd (snd (init e s1 s2 this ''scheduler''))) = finalization this"
  using assms
  by (simp_all add: init_def Let_def startsAt_def startWatch_def createSandbox_def)

lemma init_fulfilled:
  assumes "loadResult e Api = Fulfilled"
    and "k = ''scheduler'' \<longrightarrow> loadResult e Scheduler = Fulfilled"
  shows "fst (init e s1 s2 this k) =
           fanOut e s1 @ allSettled s2 (map execute (startsAt e s1 this)) @
           [Load Api None, Loaded Api Fulfilled] @
           (if k = ''scheduler'' then [Load Scheduler None, Loaded Scheduler Fulfilled] else []) @
           authEvents e this"
    and "fst (snd (init e s1 s2 this k)) = Fulfilled"
    and "initialization (snd (snd (init e s1 s2 this k))) = False"
    and "starts (snd (snd (init e s1 s2 this k))) = []"
    and "finalization (snd (snd (init e s1 s2 this k))) = finalization this"
    and "auth (snd (snd (init e s1 s2 this k))) =
           (case loadAuth e of
              None \<Rightarrow> auth this
            | Some section \<Rightarrow>
                (case provider section of
                   Some p \<Rightarrow> Some p
                 | None \<Rightarrow> Some (authFactory e (sessions (config this)))))"
    and "sandbox (snd (snd (init e s1 s2 this k))) =
           Some \<lparr>workerId = CHR ''W'' # digits (threadId e), serverDescriptor = server this,
                 apiAuth =
                   (case loadAuth e of
                      None \<Rightarrow> None
                    | Some section \<Rightarrow>
                        (case provider section of
                           Some p \<Rightarrow> Some section
                         | None \<Rightarrow>
                             Some (section\<lparr>provider :=
                                     Some (authFactory e (sessions (config this)))\<rparr>)))\<rparr>"
  using assms
  by (auto simp: init_def Let_def startsAt_def startWatch_def createSandbox_def authBootstrap_def
      authEvents_def split: option.splits)

lemma init_finalization: "finalization (snd (snd (init e s1 s2 this k))) = finalization this"
  by (auto simp: init_def Let_def startWatch_def createSandbox_def authBootstrap_def
      split: option.splits outcome.splits)

lemma init_trace_shape:
  "\<exists>after. fst (init e s1 s2 this k) =
      (fanOut e s1 @ allSettled s2 (map execute (startsAt e s1 this))) @
      [Load Api None, Loaded Api (loadResult e Api)] @ after \<and>
     Load Db None \<notin> set after \<and> Load Domain None \<notin> set after \<and>
     (Load Scheduler None \<in> set after \<longleftrightarrow> k = ''scheduler'' \<and> loadResult e Api = Fulfilled)"
proof (cases "loadResult e Api")
  case Fulfilled
  show ?thesis
  proof (cases "k = ''scheduler'' \<longrightarrow> loadResult e Scheduler = Fulfilled")
    case True
    show ?thesis
      using init_fulfilled(1) [OF Fulfilled True, of s1 s2 this] no_load_in_auth [where e = e and this = this]
      by (auto simp: Fulfilled)
  next
    case False
    then obtain err where "k = ''scheduler''" and "loadResult e Scheduler = Rejected err"
      by (cases "loadResult e Scheduler") auto
    then show ?thesis
      using init_scheduler_rejected(1) [OF Fulfilled, of err s1 s2 this]
      by (auto simp: Fulfilled)
  qed
next
  case (Rejected err)
  then show ?thesis
    using init_api_rejected(1) [OF Rejected, of s1 s2 this k] by auto
qed

lemma constructions_append: "constructions (xs @ ys) = constructions xs @ constructions ys"
  by (induction xs rule: constructions.induct) simp_all

lemma constructions_none: "(\<And>s p. AuthCreate s p \<notin> set t) \<Longrightarrow> constructions t = []"
  by (induction t rule: constructions.induct) auto

lemma fanOut_constructions: "constructions (fanOut e sched) = []"
proof (rule constructions_none)
  fix s p
  show "AuthCreate s p \<notin> set (fanOut e sched)"
    using fanOut_events [of "AuthCreate s p" e sched] by auto
qed

lemma hooks_constructions: "constructions (allSettled sched (map execute hs)) = []"
proof (rule constructions_none)
  fix s p
  show "AuthCreate s p \<notin> set (allSettled sched (map execute hs))"
    unfolding set_allSettled
    by (auto simp: execute_def executeSettle_def split: outcome.splits)
qed

lemma runStops_async: "runStops (map Async hs) = (concat (map execute hs), Fulfilled)"
  by (induction hs) simp_all

lemma runStops_append:
  "runStops (xs @ ys) =
     (case runStops xs of
        (t, Rejected err) \<Rightarrow> (t, Rejected err)
      | (t, Fulfilled) \<Rightarrow> (t @ fst (runStops ys), snd (runStops ys)))"
  by (induction xs) (auto split: prod.splits outcome.splits)

lemma executeAwait_fails: "\<forall>h. bad \<noteq> Async h \<Longrightarrow> \<exists>err. snd (executeAwait bad) = Rejected err"
  by (cases bad) simp_all

lemma runStops_fails:
  assumes "snd (executeAwait bad) = Rejected err"
  shows "runStops (map Async hs @ bad # rest) =
           (concat (map execute hs) @ fst (executeAwait bad), Rejected err)"
  using assms by (cases "executeAwait bad") (simp add: runStops_append runStops_async)

lemma stopModules_runStops:
  "stopModules ms = runStops (List.map_filter (\<lambda>(moduleName, m). stop m) ms)"
  by (induction ms) (auto simp: map_filter_simps split: option.splits prod.splits outcome.splits)

lemma shutdown_runStops:
  assumes "sandbox this = Some sb"
  shows "shutdown this =
           (case runStops (stopMembers this Domain @ stopMembers this Db @ stopMembers this Lib) of
              (t, Rejected err) \<Rightarrow> (t, Rejected err, this\<lparr>finalization := True\<rparr>)
            | (t, Fulfilled) \<Rightarrow>
                (t @ (case server this of None \<Rightarrow> [] | Some l \<Rightarrow> [ServerClose]) @ [LoggerClose],
                 Fulfilled, this\<lparr>finalization := True\<rparr>))"
  using assms
  by (auto simp: shutdown_def stopPlace_def stopModules_runStops stopMembers_def runStops_append
      Let_def split: prod.splits outcome.splits)

lemma shutdown_finalization: "finalization (snd (snd (shutdown a)))"
  by (simp add: shutdown_def Let_def split: prod.splits outcome.splits)

section \<open>Startup\<close>




section \<open>Startup: the order of the loads\<close>

text \<open>
  C8, as the code has it. In every run of \<open>init\<close>: \<open>db.load\<close> is called only
  after \<open>lib.load\<close> has been fulfilled and \<open>domain.load\<close> only after
  \<open>db.load\<close> has been fulfilled; \<open>api.load\<close> is always called, and what
  precedes that call is the whole fan-out (every event of each of its four branches)
  followed by the whole run of the start hooks (every event of every queued hook); the
  scheduler place is loaded if and only if the kind is \<open>'scheduler'\<close> and
  \<open>api.load\<close> has been fulfilled, and then only after that.
\<close>

theorem init_load_order:
  assumes "tr = fst (init e s1 s2 this k)"
  shows "precedes (Loaded Lib Fulfilled) (Load Db None) tr \<and>
         precedes (Loaded Db Fulfilled) (Load Domain None) tr \<and>
         takeWhile (\<lambda>ev. ev \<noteq> Load Api None) tr =
           fanOut e s1 @ allSettled s2 (map execute (startsAt e s1 this)) \<and>
         Load Api None \<in> set tr \<and>
         set (fanOut e s1) =
           set (loadChain e [Schemas]) \<union> set (loadChain e [Static]) \<union>
           set (loadChain e [Resources]) \<union> set (loadChain e [Lib, Db, Domain]) \<and>
         (\<forall>h \<in> set (startsAt e s1 this).
            set (execute h) \<subseteq> set (allSettled s2 (map execute (startsAt e s1 this)))) \<and>
         (Load Scheduler None \<in> set tr \<longleftrightarrow> k = ''scheduler'' \<and> loadResult e Api = Fulfilled) \<and>
         precedes (Loaded Api Fulfilled) (Load Scheduler None) tr"
proof -
  define hooks where "hooks = allSettled s2 (map execute (startsAt e s1 this))"
  obtain after where tr: "tr = (fanOut e s1 @ hooks) @ [Load Api None, Loaded Api (loadResult e Api)] @ after"
    and db: "Load Db None \<notin> set after" and domain: "Load Domain None \<notin> set after"
    and sched: "Load Scheduler None \<in> set after \<longleftrightarrow> k = ''scheduler'' \<and> loadResult e Api = Fulfilled"
    using init_trace_shape [of e s1 s2 this k] unfolding assms hooks_def by blast
  have nohook: "Load p x \<notin> set hooks" for p x
    unfolding hooks_def by (rule no_load_in_hooks)
  have noapi: "Load Api None \<notin> set (fanOut e s1 @ hooks)"
    using fanOut_places [where p = Api and e = e and sched = s1] nohook by simp
  have nosched: "Load Scheduler None \<notin> set (fanOut e s1 @ hooks)"
    using fanOut_places [where p = Scheduler and e = e and sched = s1] nohook by simp
  have 1: "precedes (Loaded Lib Fulfilled) (Load Db None) tr"
    unfolding tr append_assoc
    by (intro precedes_append_left fanOut_lib_db) (simp add: nohook db)
  have 2: "precedes (Loaded Db Fulfilled) (Load Domain None) tr"
    unfolding tr append_assoc
    by (intro precedes_append_left fanOut_db_domain) (simp add: nohook domain)
  have 3: "takeWhile (\<lambda>ev. ev \<noteq> Load Api None) tr = fanOut e s1 @ hooks"
  proof -
    have "takeWhile (\<lambda>ev. ev \<noteq> Load Api None) tr =
        (fanOut e s1 @ hooks) @
        takeWhile (\<lambda>ev. ev \<noteq> Load Api None) ([Load Api None, Loaded Api (loadResult e Api)] @ after)"
      unfolding tr using noapi by (intro takeWhile_append2) auto
    then show ?thesis by simp
  qed
  have 4: "Load Api None \<in> set tr"
    by (simp add: tr)
  have 6: "\<forall>h \<in> set (startsAt e s1 this). set (execute h) \<subseteq> set hooks"
    unfolding hooks_def using hooks_set by blast
  have 7: "Load Scheduler None \<in> set tr \<longleftrightarrow> k = ''scheduler'' \<and> loadResult e Api = Fulfilled"
    using nosched sched by (simp add: tr)
  have 8: "precedes (Loaded Api Fulfilled) (Load Scheduler None) tr"
  proof -
    have "precedes (Loaded Api Fulfilled) (Load Scheduler None)
            ([Load Api None, Loaded Api (loadResult e Api)] @ after)"
      using sched by (auto simp: precedes_def)
    with nosched show ?thesis
      unfolding tr by (rule precedes_append_right)
  qed
  from 1 2 3 4 fanOut_set [of e s1] 6 7 8 show ?thesis
    unfolding hooks_def by blast
qed

text \<open>A run for the kind \<open>'scheduler'\<close> in which every load is fulfilled.\<close>

theorem init_load_order_witness:
  "Load Db None \<in> set (fst (init exampleEnv [3, 0, 3] [] startingApp ''scheduler'')) \<and>
   Loaded Lib Fulfilled \<in> set (takeWhile (\<lambda>ev. ev \<noteq> Load Db None)
      (fst (init exampleEnv [3, 0, 3] [] startingApp ''scheduler''))) \<and>
   Hook ''lib/cache.start'' (Rejected (Error ''no cache'' ''ECACHE''))
     \<in> set (startsAt exampleEnv [3, 0, 3] startingApp) \<and>
   ConsoleError (Error ''no cache'' ''ECACHE'')
     \<in> set (takeWhile (\<lambda>ev. ev \<noteq> Load Api None)
         (fst (init exampleEnv [3, 0, 3] [] startingApp ''scheduler''))) \<and>
   loadResult exampleEnv Api = Fulfilled \<and>
   Load Scheduler None \<in> set (fst (init exampleEnv [3, 0, 3] [] startingApp ''scheduler'')) \<and>
   Loaded Api Fulfilled \<in> set (takeWhile (\<lambda>ev. ev \<noteq> Load Scheduler None)
      (fst (init exampleEnv [3, 0, 3] [] startingApp ''scheduler'')))"
proof -
  define tr where "tr = fst (init exampleEnv [3, 0, 3] [] startingApp ''scheduler'')"
  note order = init_load_order [OF tr_def]
  have a: "loadResult exampleEnv Api = Fulfilled" and l: "loadResult exampleEnv Lib = Fulfilled"
    by (simp_all add: exampleEnv_def)
  have h: "Hook ''lib/cache.start'' (Rejected (Error ''no cache'' ''ECACHE''))
     \<in> set (startsAt exampleEnv [3, 0, 3] startingApp)"
    by (simp add: startsAt_def startingApp_def)
  have "Load Db None \<in> set (fanOut exampleEnv [3, 0, 3])"
    using order l by simp
  then have "Load Db None \<in> set (takeWhile (\<lambda>ev. ev \<noteq> Load Api None) tr)"
    using order by simp
  then have db: "Load Db None \<in> set tr"
    by (rule set_takeWhileD [THEN conjunct1])
  with order have 1: "Loaded Lib Fulfilled \<in> set (takeWhile (\<lambda>ev. ev \<noteq> Load Db None) tr)"
    by (simp add: precedes_def)
  have "ConsoleError (Error ''no cache'' ''ECACHE'')
      \<in> set (execute (Hook ''lib/cache.start'' (Rejected (Error ''no cache'' ''ECACHE''))))"
    by (simp add: execute_def executeSettle_def)
  with order h have 2: "ConsoleError (Error ''no cache'' ''ECACHE'')
     \<in> set (takeWhile (\<lambda>ev. ev \<noteq> Load Api None) tr)"
    by auto
  from order a have 3: "Load Scheduler None \<in> set tr"
    by simp
  with order have 4: "Loaded Api Fulfilled \<in> set (takeWhile (\<lambda>ev. ev \<noteq> Load Scheduler None) tr)"
    by (simp add: precedes_def)
  from db 1 h 2 a 3 4 show ?thesis
    unfolding tr_def by blast
qed

text \<open>
  Where the claim as stated fails: with the kind \<open>'scheduler'\<close> and a rejected
  \<open>api.load()\<close>, the scheduler place is not loaded.
\<close>

theorem init_scheduler_counterexample:
  "Load Scheduler None \<notin> set (fst (init apiFailsEnv [] [] startingApp ''scheduler''))"
proof -
  have a: "loadResult apiFailsEnv Api = Rejected (Error ''unreadable'' ''EACCES'')"
    by (simp add: apiFailsEnv_def)
  show ?thesis
    unfolding init_api_rejected(1) [OF a]
    using fanOut_places [where p = Scheduler and e = apiFailsEnv and sched = "[]" and x = None] no_load_in_hooks [where p = Scheduler and x = None]
    by simp
qed

section \<open>Auth bootstrap\<close>

text \<open>
  C6. When \<open>init\<close> gets past its loads (the api load, and the scheduler load for
  the kind \<open>'scheduler'\<close>, are fulfilled), the auth bootstrap that follows the api
  load is a case analysis on what the load left in \<open>api.auth\<close>. When it has a
  provider \<open>P\<close>, the application's \<open>auth\<close> is \<open>P\<close> after \<open>init\<close>, no
  provider has been constructed and \<open>api.auth\<close> is as the load left it. When it
  exists without a provider, exactly one provider has been constructed, from
  \<open>config.sessions\<close>, and that provider is both the application's \<open>auth\<close> and
  \<open>api.auth.provider\<close>. When there is no \<open>api.auth\<close>, no provider has been
  constructed, there is still no \<open>api.auth\<close>, and the application's \<open>auth\<close> is
  what it was before \<open>init\<close>: \<open>null\<close> after the constructor.
\<close>

theorem init_auth_bootstrap:
  assumes "loadResult e Api = Fulfilled"
    and "k = ''scheduler'' \<longrightarrow> loadResult e Scheduler = Fulfilled"
    and "tr = fst (init e s1 s2 this k)"
    and "this' = snd (snd (init e s1 s2 this k))"
  shows "(\<forall>section P. loadAuth e = Some section \<longrightarrow> provider section = Some P \<longrightarrow>
            auth this' = Some P \<and> constructions tr = [] \<and>
            (\<exists>sb. sandbox this' = Some sb \<and> apiAuth sb = Some section)) \<and>
         (\<forall>section. loadAuth e = Some section \<longrightarrow> provider section = None \<longrightarrow>
            (\<exists>p. p = authFactory e (sessions (config this)) \<and>
               constructions tr = [(sessions (config this), p)] \<and> auth this' = Some p \<and>
               (\<exists>sb. sandbox this' = Some sb \<and>
                  apiAuth sb = Some (section\<lparr>provider := Some p\<rparr>)))) \<and>
         (loadAuth e = None \<longrightarrow>
            auth this' = auth this \<and> constructions tr = [] \<and>
            (\<exists>sb. sandbox this' = Some sb \<and> apiAuth sb = None)) \<and>
         auth (newApplication e cwd cfg) = None"
proof -
  have c: "constructions tr = constructions (authEvents e this)"
    unfolding assms(3) init_fulfilled(1) [OF assms(1,2)]
    by (simp add: constructions_append fanOut_constructions hooks_constructions)
  note a = init_fulfilled(6) [OF assms(1,2), of s1 s2 this, folded assms(4)]
  note s = init_fulfilled(7) [OF assms(1,2), of s1 s2 this, folded assms(4)]
  have 1: "auth this' = Some P \<and> constructions tr = [] \<and>
            (\<exists>sb. sandbox this' = Some sb \<and> apiAuth sb = Some x)"
    if "loadAuth e = Some x" and "provider x = Some P" for x P
    using that by (simp add: a s c authEvents_def)
  have 2: "\<exists>p. p = authFactory e (sessions (config this)) \<and>
               constructions tr = [(sessions (config this), p)] \<and> auth this' = Some p \<and>
               (\<exists>sb. sandbox this' = Some sb \<and>
                  apiAuth sb = Some (x\<lparr>provider := Some p\<rparr>))"
    if "loadAuth e = Some x" and "provider x = None" for x
    using that by (simp add: a s c authEvents_def)
  have 3: "auth this' = auth this \<and> constructions tr = [] \<and>
            (\<exists>sb. sandbox this' = Some sb \<and> apiAuth sb = None)"
    if "loadAuth e = None"
    using that by (simp add: a s c authEvents_def)
  have 4: "auth (newApplication e cwd cfg) = None"
    by (simp add: newApplication_def)
  from 1 2 3 4 show ?thesis
    by blast
qed

text \<open>
  The three cases, from an application whose \<open>auth\<close> is still \<open>null\<close>: the api
  load publishes a provider, an auth section without a provider, or no auth section.
\<close>

theorem init_auth_bootstrap_witness:
  "loadResult (publishingEnv (Some \<lparr>provider = Some (Provider 7)\<rparr>)) Api = Fulfilled \<and>
   ''server'' \<noteq> ''scheduler'' \<and>
   auth startingApp = None \<and>
   auth (snd (snd (init (publishingEnv (Some \<lparr>provider = Some (Provider 7)\<rparr>)) [] []
      startingApp ''server''))) = Some (Provider 7) \<and>
   constructions (fst (init (publishingEnv (Some \<lparr>provider = Some (Provider 7)\<rparr>)) [] []
      startingApp ''server'')) = [] \<and>
   loadResult (publishingEnv (Some \<lparr>provider = None\<rparr>)) Api = Fulfilled \<and>
   auth (snd (snd (init (publishingEnv (Some \<lparr>provider = None\<rparr>)) [] []
      startingApp ''server''))) = Some (Provider 1) \<and>
   constructions (fst (init (publishingEnv (Some \<lparr>provider = None\<rparr>)) [] []
      startingApp ''server'')) = [(''sid'', Provider 1)] \<and>
   map_option apiAuth (sandbox (snd (snd (init (publishingEnv (Some \<lparr>provider = None\<rparr>)) [] []
      startingApp ''server'')))) = Some (Some \<lparr>provider = Some (Provider 1)\<rparr>) \<and>
   loadResult (publishingEnv None) Api = Fulfilled \<and>
   auth (snd (snd (init (publishingEnv None) [] [] startingApp ''server''))) = None \<and>
   constructions (fst (init (publishingEnv None) [] [] startingApp ''server'')) = []"
proof -
  have l: "loadResult (publishingEnv a) Api = Fulfilled" for a
    by (simp add: publishingEnv_def exampleEnv_def)
  have k: "''server'' = ''scheduler'' \<longrightarrow> loadResult (publishingEnv a) Scheduler = Fulfilled" for a
    by simp
  have p: "loadAuth (publishingEnv a) = a" for a
    by (simp add: publishingEnv_def)
  have f: "authFactory (publishingEnv a) x = Provider 1" for a x
    by (simp add: publishingEnv_def exampleEnv_def)
  have c: "sessions (config startingApp) = ''sid''"
    by (simp add: startingApp_def exampleApp_def newApplication_def exampleConfig_def)
  have n: "auth startingApp = None"
    by (simp add: startingApp_def exampleApp_def newApplication_def)
  from init_auth_bootstrap [OF l [of "Some \<lparr>provider = Some (Provider 7)\<rparr>"] k [of "Some \<lparr>provider = Some (Provider 7)\<rparr>"] refl refl, where this = startingApp
      and ?s1.0 = "[]" and ?s2.0 = "[]" and cwd = "''/srv''" and cfg = exampleConfig]
  have 1: "auth (snd (snd (init (publishingEnv (Some \<lparr>provider = Some (Provider 7)\<rparr>)) [] []
      startingApp ''server''))) = Some (Provider 7) \<and>
   constructions (fst (init (publishingEnv (Some \<lparr>provider = Some (Provider 7)\<rparr>)) [] []
      startingApp ''server'')) = []"
    by (simp add: p)
  from init_auth_bootstrap [OF l [of "Some \<lparr>provider = None\<rparr>"] k [of "Some \<lparr>provider = None\<rparr>"] refl refl, where this = startingApp
      and ?s1.0 = "[]" and ?s2.0 = "[]" and cwd = "''/srv''" and cfg = exampleConfig]
  have 2: "auth (snd (snd (init (publishingEnv (Some \<lparr>provider = None\<rparr>)) [] []
      startingApp ''server''))) = Some (Provider 1) \<and>
   constructions (fst (init (publishingEnv (Some \<lparr>provider = None\<rparr>)) [] []
      startingApp ''server'')) = [(''sid'', Provider 1)] \<and>
   map_option apiAuth (sandbox (snd (snd (init (publishingEnv (Some \<lparr>provider = None\<rparr>)) [] []
      startingApp ''server'')))) = Some (Some \<lparr>provider = Some (Provider 1)\<rparr>)"
    by (auto simp: p f c)
  from init_auth_bootstrap [OF l [of "None"] k [of "None"] refl refl, where this = startingApp
      and ?s1.0 = "[]" and ?s2.0 = "[]" and cwd = "''/srv''" and cfg = exampleConfig]
  have 3: "auth (snd (snd (init (publishingEnv None) [] [] startingApp ''server''))) = None \<and>
   constructions (fst (init (publishingEnv None) [] [] startingApp ''server'')) = []"
    by (simp add: p n)
  from l n 1 2 3 show ?thesis
    by simp
qed

section \<open>Shutdown\<close>

lemma runningApp_members:
  "stopMembers runningApp Domain @ stopMembers runningApp Db @ stopMembers runningApp Lib =
     map Async [Hook ''domain/orders.stop'' (Rejected (Error ''busy'' ''EBUSY'')),
                Hook ''db/pg.stop'' Fulfilled]"
  by (simp add: stopMembers_def runningApp_def map_filter_simps)

lemma brokenStopApp_members:
  "stopMembers brokenStopApp Domain @ stopMembers brokenStopApp Db @ stopMembers brokenStopApp Lib =
     map Async [] @ Throws ''domain/orders.stop'' (Error ''busy'' ''EBUSY'') #
       [Async (Hook ''db/pg.stop'' Fulfilled)]"
  by (simp add: stopMembers_def brokenStopApp_def map_filter_simps)

lemma brokenStopApp_sandbox:
  "sandbox brokenStopApp = Some \<lparr>workerId = ''W1'', serverDescriptor = None, apiAuth = None\<rparr>"
  by (simp add: brokenStopApp_def runningApp_def sandboxedApp_def)

text \<open>
  C7, as the code has it. \<open>shutdown\<close> (of an application whose sandbox exists) sets
  \<open>finalization\<close> and then calls what the modules of \<open>domain\<close>, then of
  \<open>db\<close>, then of \<open>lib\<close> export under \<open>stop\<close>, one after the other. When all
  of them are hooks (asynchronous functions whose promise is fulfilled or rejected
  with an error), each is called and awaited, a rejection is logged and the next hook
  runs all the same; then the network listener is closed if there is one, the logger
  is closed last, and the promise of \<open>shutdown\<close> is fulfilled. When one of them is
  no such function (it throws before it returns a promise, returns no promise, or
  rejects with \<open>null\<close> or \<open>undefined\<close>), the hooks before it run as described,
  and at that call \<open>shutdown\<close> is rejected: nothing after it is called, neither
  the remaining stops nor the two closes. The flag \<open>finalization\<close> is set before
  anything that can fail (it is true after \<open>shutdown\<close> of any application), and a
  later \<open>init\<close> leaves it true.
\<close>

theorem shutdown_order:
  assumes "sandbox this = Some sb"
    and "members = stopMembers this Domain @ stopMembers this Db @ stopMembers this Lib"
    and "tr = fst (shutdown this)"
  shows "(\<forall>hooks. members = map Async hooks \<longrightarrow>
            shutdown this =
              (concat (map execute hooks) @
                 (case server this of None \<Rightarrow> [] | Some l \<Rightarrow> [ServerClose]) @ [LoggerClose],
               Fulfilled, this\<lparr>finalization := True\<rparr>) \<and>
            (\<forall>h \<in> set hooks.
               Called h \<in> set tr \<and> Settled h (hookResult h) \<in> set tr \<and>
               (\<forall>err. hookResult h = Rejected err \<longrightarrow> ConsoleError err \<in> set tr)) \<and>
            last tr = LoggerClose) \<and>
         (\<forall>hooks bad rest. members = map Async hooks @ bad # rest \<longrightarrow> (\<forall>h. bad \<noteq> Async h) \<longrightarrow>
            (\<exists>err. snd (executeAwait bad) = Rejected err \<and>
               shutdown this =
                 (concat (map execute hooks) @ fst (executeAwait bad), Rejected err,
                  this\<lparr>finalization := True\<rparr>))) \<and>
         (\<forall>a. finalization (snd (snd (shutdown a)))) \<and>
         finalization (snd (snd (init e s1 s2 (snd (snd (shutdown this))) k)))"
proof -
  note run = shutdown_runStops [OF assms(1), folded assms(2)]
  have each: "Called h \<in> set (execute h) \<and> Settled h (hookResult h) \<in> set (execute h) \<and>
            (\<forall>err. hookResult h = Rejected err \<longrightarrow> ConsoleError err \<in> set (execute h))" for h
    by (auto simp: execute_def executeSettle_def split: outcome.splits)
  have good: "shutdown this =
              (concat (map execute hooks) @
                 (case server this of None \<Rightarrow> [] | Some l \<Rightarrow> [ServerClose]) @ [LoggerClose],
               Fulfilled, this\<lparr>finalization := True\<rparr>) \<and>
            (\<forall>h \<in> set hooks.
               Called h \<in> set tr \<and> Settled h (hookResult h) \<in> set tr \<and>
               (\<forall>err. hookResult h = Rejected err \<longrightarrow> ConsoleError err \<in> set tr)) \<and>
            last tr = LoggerClose"
    if m: "members = map Async hooks" for hooks
  proof -
    have sd: "shutdown this =
              (concat (map execute hooks) @
                 (case server this of None \<Rightarrow> [] | Some l \<Rightarrow> [ServerClose]) @ [LoggerClose],
               Fulfilled, this\<lparr>finalization := True\<rparr>)"
      by (simp add: run m runStops_async)
    have "set (execute h) \<subseteq> set tr" if "h \<in> set hooks" for h
      using that by (auto simp: assms(3) sd)
    with each have "\<forall>h \<in> set hooks.
               Called h \<in> set tr \<and> Settled h (hookResult h) \<in> set tr \<and>
               (\<forall>err. hookResult h = Rejected err \<longrightarrow> ConsoleError err \<in> set tr)"
      by blast
    moreover have "last tr = LoggerClose"
      by (simp add: assms(3) sd)
    ultimately show ?thesis
      using sd by blast
  qed
  have bad: "\<exists>err. snd (executeAwait bad) = Rejected err \<and>
               shutdown this =
                 (concat (map execute hooks) @ fst (executeAwait bad), Rejected err,
                  this\<lparr>finalization := True\<rparr>)"
    if m: "members = map Async hooks @ bad # rest" and b: "\<forall>h. bad \<noteq> Async h"
    for hooks bad rest
  proof -
    obtain err where err: "snd (executeAwait bad) = Rejected err"
      using executeAwait_fails [OF b] by blast
    have "shutdown this =
                 (concat (map execute hooks) @ fst (executeAwait bad), Rejected err,
                  this\<lparr>finalization := True\<rparr>)"
      by (simp add: run m runStops_fails [OF err])
    with err show ?thesis
      by blast
  qed
  have "finalization (snd (snd (init e s1 s2 (snd (snd (shutdown this))) k)))"
    by (simp add: init_finalization shutdown_finalization)
  with good bad shutdown_finalization show ?thesis
    by blast
qed

text \<open>
  A running application with a failing stop hook in \<open>domain\<close>, a stop hook in
  \<open>db\<close> and a listener; and the same application when the stop function of
  \<open>domain\<close> throws instead.
\<close>

theorem shutdown_order_witness:
  "sandbox runningApp \<noteq> None \<and>
   stopMembers runningApp Domain @ stopMembers runningApp Db @ stopMembers runningApp Lib =
     map Async [Hook ''domain/orders.stop'' (Rejected (Error ''busy'' ''EBUSY'')),
                Hook ''db/pg.stop'' Fulfilled] \<and>
   shutdown runningApp =
     ([Called (Hook ''domain/orders.stop'' (Rejected (Error ''busy'' ''EBUSY''))),
       Settled (Hook ''domain/orders.stop'' (Rejected (Error ''busy'' ''EBUSY'')))
         (Rejected (Error ''busy'' ''EBUSY'')),
       ConsoleError (Error ''busy'' ''EBUSY''),
       Called (Hook ''db/pg.stop'' Fulfilled),
       Settled (Hook ''db/pg.stop'' Fulfilled) Fulfilled,
       ServerClose, LoggerClose],
      Fulfilled, runningApp\<lparr>finalization := True\<rparr>) \<and>
   sandbox brokenStopApp \<noteq> None \<and>
   stopMembers brokenStopApp Domain @ stopMembers brokenStopApp Db @ stopMembers brokenStopApp Lib =
     map Async [] @ Throws ''domain/orders.stop'' (Error ''busy'' ''EBUSY'') #
       [Async (Hook ''db/pg.stop'' Fulfilled)] \<and>
   shutdown brokenStopApp =
     ([Invoked ''domain/orders.stop''], Rejected (Error ''busy'' ''EBUSY''),
      brokenStopApp\<lparr>finalization := True\<rparr>)"
proof -
  have s: "sandbox runningApp = Some \<lparr>workerId = ''W1'', serverDescriptor = None, apiAuth = None\<rparr>"
    by (simp add: runningApp_def sandboxedApp_def)
  have l: "server runningApp = Some \<lparr>host = ''127.0.0.1'', port = 8000, protocol = ''http''\<rparr>"
    by (simp add: runningApp_def)
  note good = shutdown_order [OF s refl refl,
      where e = exampleEnv and ?s1.0 = "[]" and ?s2.0 = "[]" and k = "''server''",
      THEN conjunct1, rule_format, OF runningApp_members, THEN conjunct1]
  have 1: "shutdown runningApp =
     ([Called (Hook ''domain/orders.stop'' (Rejected (Error ''busy'' ''EBUSY''))),
       Settled (Hook ''domain/orders.stop'' (Rejected (Error ''busy'' ''EBUSY'')))
         (Rejected (Error ''busy'' ''EBUSY'')),
       ConsoleError (Error ''busy'' ''EBUSY''),
       Called (Hook ''db/pg.stop'' Fulfilled),
       Settled (Hook ''db/pg.stop'' Fulfilled) Fulfilled,
       ServerClose, LoggerClose],
      Fulfilled, runningApp\<lparr>finalization := True\<rparr>)"
    unfolding good by (simp add: l execute_def executeSettle_def)
  have b: "Throws ''domain/orders.stop'' (Error ''busy'' ''EBUSY'') \<noteq> Async h" for h
    by simp
  note broken = shutdown_order [OF brokenStopApp_sandbox refl refl,
      where e = exampleEnv and ?s1.0 = "[]" and ?s2.0 = "[]" and k = "''server''",
      THEN conjunct2, THEN conjunct1, rule_format, OF brokenStopApp_members b]
  from broken have 2: "shutdown brokenStopApp =
     ([Invoked ''domain/orders.stop''], Rejected (Error ''busy'' ''EBUSY''),
      brokenStopApp\<lparr>finalization := True\<rparr>)"
    by simp
  from s brokenStopApp_sandbox runningApp_members brokenStopApp_members 1 2 show ?thesis
    by simp
qed

text \<open>
  Where the claim as stated fails: the stop function of the \<open>domain\<close> module throws,
  nothing is logged, the stop hook of \<open>db\<close> is not called, and neither the listener
  nor the logger is closed.
\<close>

theorem shutdown_abort_counterexample:
  "stopMembers brokenStopApp Db = [Async (Hook ''db/pg.stop'' Fulfilled)] \<and>
   server brokenStopApp = Some \<lparr>host = ''127.0.0.1'', port = 8000, protocol = ''http''\<rparr> \<and>
   shutdown brokenStopApp =
     ([Invoked ''domain/orders.stop''], Rejected (Error ''busy'' ''EBUSY''),
      brokenStopApp\<lparr>finalization := True\<rparr>)"
proof -
  have "stopMembers brokenStopApp Db = [Async (Hook ''db/pg.stop'' Fulfilled)]"
    by (simp add: stopMembers_def brokenStopApp_def map_filter_simps)
  moreover have "server brokenStopApp =
      Some \<lparr>host = ''127.0.0.1'', port = 8000, protocol = ''http''\<rparr>"
    by (simp add: brokenStopApp_def runningApp_def)
  moreover have "shutdown brokenStopApp =
     ([Invoked ''domain/orders.stop''], Rejected (Error ''busy'' ''EBUSY''),
      brokenStopApp\<lparr>finalization := True\<rparr>)"
    by (simp add: shutdown_runStops [OF brokenStopApp_sandbox] brokenStopApp_members)
  ultimately show ?thesis
    by simp
qed

end
